theory Spec2Isabelle
  imports Complex_Main
begin

section \<open>Python values as the packet dictionaries carry them\<close>

text \<open>
  The device library hands every received packet to the callbacks as a dictionary of
  strings to values; the values the correlator looks at are strings and nested
  dictionaries. A dictionary is an association list read with \<open>map_of\<close>; the code only
  reads packets, it never updates them.
\<close>

datatype pyval =
    PyNone
  | PyBool bool
  | PyInt int
  | PyStr string
  | PyDict "(string \<times> pyval) list"

type_synonym pydict = "(string \<times> pyval) list"

text \<open>
  \<open>AttributeError\<close> is what \<open>x.get(...)\<close> raises when \<open>x\<close> is not a dictionary;
  \<open>SendError\<close> stands for whatever exception the library's \<open>sendText\<close> raises.
\<close>

datatype exn = AttributeError | SendError string

text \<open>Python truthiness, as \<open>if not decoded\<close> tests it.\<close>

fun truthy :: "pyval \<Rightarrow> bool" where
  "truthy PyNone = False"
| "truthy (PyBool b) = b"
| "truthy (PyInt i) = (i \<noteq> 0)"
| "truthy (PyStr s) = (s \<noteq> [])"
| "truthy (PyDict d) = (d \<noteq> [])"

fun is_dict :: "pyval \<Rightarrow> bool" where
  "is_dict (PyDict d) = True"
| "is_dict _ = False"

text \<open>\<open>packet.get(key, default)\<close> on the packet, which is always a dictionary.\<close>

definition dict_get :: "pydict \<Rightarrow> string \<Rightarrow> pyval \<Rightarrow> pyval" where
  "dict_get d k dflt = (case map_of d k of None \<Rightarrow> dflt | Some v \<Rightarrow> v)"

text \<open>\<open>x.get(key, default)\<close> on an arbitrary value: only a dictionary has the method.\<close>

fun py_get :: "pyval \<Rightarrow> string \<Rightarrow> pyval \<Rightarrow> exn + pyval" where
  "py_get (PyDict d) k dflt = Inr (dict_get d k dflt)"
| "py_get PyNone k dflt = Inl AttributeError"
| "py_get (PyBool b) k dflt = Inl AttributeError"
| "py_get (PyInt i) k dflt = Inl AttributeError"
| "py_get (PyStr s) k dflt = Inl AttributeError"

section \<open>The acknowledgment state\<close>

text \<open>
  The three shared variables of \<open>meshtastic_cli.py\<close> (lines 25 to 28) and of
  \<open>MeshtasticGUI.__init__\<close> (lines 31 to 34): the event flag, the recorded status and
  the node an acknowledgment is awaited from. The lock is not a field: every function
  below is one critical section and is a single atomic step.
\<close>

record ack_state =
  ack_received_event :: bool
  ack_response_status :: pyval
  waiting_for_ack_from :: "string option"

definition init_state :: ack_state where
  "init_state =
     \<lparr>ack_received_event = False,
      ack_response_status = PyStr ''UNKNOWN'',
      waiting_for_ack_from = None\<rparr>"

text \<open>What became of a packet handed to the receive callback.\<close>

datatype rx_result =
    AckConsumed
  | NotDecoded
  | Printed
  | ErrorPrinted exn
  | Queued

section \<open>The command-line receive callback\<close>

text \<open>
  \<open>waiting_for_ack_from and from_node_id == waiting_for_ack_from and
  message_type == 'ROUTING_APP'\<close> (line 44). The first conjunct is Python truthiness of
  the expected node: \<open>None\<close> and the empty string both fail it.
\<close>

definition ack_match :: "string option \<Rightarrow> pyval \<Rightarrow> pyval \<Rightarrow> bool" where
  "ack_match waiting from_node_id message_type =
     (case waiting of
        None \<Rightarrow> False
      | Some w \<Rightarrow> w \<noteq> [] \<and> from_node_id = PyStr w \<and> message_type = PyStr ''ROUTING_APP'')"

text \<open>
  The body of the \<open>try\<close> of \<open>on_receive\<close> (lines 35 to 108). The block that prints the
  packet (lines 53 to 108) is presentation; reaching it is the result \<open>Printed\<close>.
\<close>

definition on_receive_try :: "ack_state \<Rightarrow> pydict \<Rightarrow> exn + (ack_state \<times> rx_result)" where
  "on_receive_try st packet =
     (let decoded = dict_get packet ''decoded'' PyNone in
      if \<not> truthy decoded then Inr (st, NotDecoded)
      else
        case py_get decoded ''portnum'' (PyStr ''N_A'') of
          Inl e \<Rightarrow> Inl e
        | Inr message_type \<Rightarrow>
            let from_node_id = dict_get packet ''fromId'' (PyStr ''N/A'') in
            if ack_match (waiting_for_ack_from st) from_node_id message_type then
              case py_get decoded ''routing'' (PyDict []) of
                Inl e \<Rightarrow> Inl e
              | Inr routing \<Rightarrow>
                  (case py_get routing ''errorReason'' (PyStr ''UNKNOWN_RESPONSE'') of
                     Inl e \<Rightarrow> Inl e
                   | Inr error \<Rightarrow>
                       Inr (st\<lparr>ack_response_status := error, ack_received_event := True\<rparr>,
                            AckConsumed))
            else Inr (st, Printed))"

text \<open>
  \<open>on_receive\<close> with its \<open>except Exception\<close> (lines 110 to 112): an exception is
  printed, nothing was assigned before it was raised.
\<close>

definition on_receive :: "ack_state \<Rightarrow> pydict \<Rightarrow> ack_state \<times> rx_result" where
  "on_receive st packet =
     (case on_receive_try st packet of
        Inl e \<Rightarrow> (st, ErrorPrinted e)
      | Inr r \<Rightarrow> r)"

section \<open>The graphical receive callback\<close>

text \<open>
  \<open>MeshtasticGUI.on_packet_received\<close> (lines 261 to 273). The condition is evaluated
  left to right and stops at the first false conjunct; there is no \<open>try\<close>, so an
  exception leaves the callback.
\<close>

definition on_packet_received :: "ack_state \<Rightarrow> pydict \<Rightarrow> exn + (ack_state \<times> rx_result)" where
  "on_packet_received st packet =
     (case waiting_for_ack_from st of
        None \<Rightarrow> Inr (st, Queued)
      | Some w \<Rightarrow>
          if w = [] then Inr (st, Queued)
          else if dict_get packet ''fromId'' PyNone \<noteq> PyStr w then Inr (st, Queued)
          else
            case py_get (dict_get packet ''decoded'' (PyDict [])) ''portnum'' PyNone of
              Inl e \<Rightarrow> Inl e
            | Inr portnum \<Rightarrow>
                if portnum \<noteq> PyStr ''ROUTING_APP'' then Inr (st, Queued)
                else
                  case py_get (dict_get packet ''decoded'' (PyDict [])) ''routing'' (PyDict []) of
                    Inl e \<Rightarrow> Inl e
                  | Inr routing \<Rightarrow>
                      (case py_get routing ''errorReason'' (PyStr ''UNKNOWN_RESPONSE'') of
                         Inl e \<Rightarrow> Inl e
                       | Inr error \<Rightarrow>
                           Inr (st\<lparr>ack_response_status := error, ack_received_event := True\<rparr>,
                                AckConsumed)))"

section \<open>Arming, disarming and the verdict\<close>

text \<open>
  The first critical section of \<open>send_direct_message_and_wait\<close> (lines 392 to 395) and
  of \<open>send_direct_message_thread\<close> (lines 420 to 423).
\<close>

definition arm :: "string \<Rightarrow> ack_state \<Rightarrow> ack_state" where
  "arm destination_node_id st =
     st\<lparr>ack_received_event := False,
        ack_response_status := PyStr ''UNKNOWN'',
        waiting_for_ack_from := Some destination_node_id\<rparr>"

text \<open>The second critical section (lines 408 to 410): read the status, clear the node.\<close>

definition disarm :: "ack_state \<Rightarrow> pyval \<times> ack_state" where
  "disarm st = (ack_response_status st, st\<lparr>waiting_for_ack_from := None\<rparr>)"

text \<open>The message shown to the user (lines 415 to 420, and line 427 for the handler).\<close>

datatype dm_report =
    Delivered
  | TimedOut
  | DeliveryFailed pyval
  | SendFailed exn

definition classify :: "pyval \<Rightarrow> dm_report" where
  "classify status =
     (if status = PyStr ''NONE'' then Delivered
      else if status = PyStr ''UNKNOWN'' then TimedOut
      else DeliveryFailed status)"

section \<open>The critical sections\<close>

text \<open>
  Every access to the three variables happens inside \<open>with acks_lock\<close>, so whatever
  any number of threads do to them is a sequence of critical sections of three kinds: a
  sender's first one, one invocation of the receive callback, a sender's second one.
\<close>

datatype ack_op = Arm string | Observe pydict | Disarm

fun exec_op :: "(ack_state \<Rightarrow> pydict \<Rightarrow> ack_state) \<Rightarrow> ack_state \<Rightarrow> ack_op \<Rightarrow> ack_state" where
  "exec_op obs st (Arm d) = arm d st"
| "exec_op obs st (Observe p) = obs st p"
| "exec_op obs st Disarm = snd (disarm st)"

definition run_ops :: "(ack_state \<Rightarrow> pydict \<Rightarrow> ack_state) \<Rightarrow> ack_op list \<Rightarrow> ack_state" where
  "run_ops obs ops = foldl (exec_op obs) init_state ops"

fun is_arm :: "ack_op \<Rightarrow> bool" where
  "is_arm (Arm d) = True"
| "is_arm _ = False"

fun is_observe :: "ack_op \<Rightarrow> bool" where
  "is_observe (Observe p) = True"
| "is_observe _ = False"

section \<open>The feed while a sender waits\<close>

text \<open>
  The state change of one callback invocation. An exception of the graphical callback
  leaves the state as it was (nothing is assigned before the last \<open>get\<close>); the feed is
  taken to go on with the next packet.
\<close>

definition cli_observe :: "ack_state \<Rightarrow> pydict \<Rightarrow> ack_state" where
  "cli_observe st packet = fst (on_receive st packet)"

definition gui_observe :: "ack_state \<Rightarrow> pydict \<Rightarrow> ack_state" where
  "gui_observe st packet =
     (case on_packet_received st packet of Inl e \<Rightarrow> st | Inr r \<Rightarrow> fst r)"

text \<open>
  What the other threads do between a sender's two critical sections, in the order in
  which they take the lock: the callback invocations of the feed thread and the
  critical sections of other senders (\<open>main\<close> starts one thread per \<open>dm\<close> command and
  joins none, lines 542 to 549; \<open>send_message\<close> does the same, lines 406 to 410). Each
  comes with the time in seconds, counted from the start of the wait, at which it took
  place. What happens after the wait has ended but before the sender has taken the lock
  again belongs to the list as well.
\<close>

type_synonym feed = "(real \<times> ack_op) list"

text \<open>A feed in which only packets arrive: no other sender is active.\<close>

definition packets_only :: "(real \<times> pydict) list \<Rightarrow> feed" where
  "packets_only ps = map (\<lambda>(t, p). (t, Observe p)) ps"

fun run_feed :: "(ack_state \<Rightarrow> pydict \<Rightarrow> ack_state) \<Rightarrow> ack_state \<Rightarrow> feed \<Rightarrow> ack_state" where
  "run_feed obs st [] = st"
| "run_feed obs st ((t, e) # es) = run_feed obs (exec_op obs st e) es"

text \<open>
  When the event flag is first found set, if ever. The one flag is shared: any consumed
  packet sets it, whichever sender it was meant for, and a sender's \<open>clear\<close> after that
  does not put a woken waiter back to sleep.
\<close>

fun first_set :: "(ack_state \<Rightarrow> pydict \<Rightarrow> ack_state) \<Rightarrow> ack_state \<Rightarrow> feed \<Rightarrow> real option" where
  "first_set obs st [] = None"
| "first_set obs st ((t, e) # es) =
     (if ack_received_event (exec_op obs st e) then Some t
      else first_set obs (exec_op obs st e) es)"

text \<open>
  \<open>ack_received_event.wait(timeout)\<close>: returns at once when the flag is set, when it
  becomes set, or after \<open>timeout\<close> seconds, whichever is first. The result is the time
  spent blocked.
\<close>

definition event_wait :: "real \<Rightarrow> bool \<Rightarrow> real option \<Rightarrow> real" where
  "event_wait timeout flag set_at =
     (if flag then 0
      else case set_at of None \<Rightarrow> timeout | Some t \<Rightarrow> min (max t 0) timeout)"

section \<open>Sending a direct message and waiting\<close>

text \<open>
  What one call leaves behind: the shared variables when it returns, the message it
  printed, the local \<open>status\<close> (not assigned when the handler ran), and the seconds it
  spent blocked in the wait.
\<close>

record dm_result =
  final :: ack_state
  report :: dm_report
  status_read :: "pyval option"
  waited :: real

text \<open>
  The whole of \<open>send_direct_message_and_wait\<close> (lines 391 to 427): arm, \<open>sendText\<close>
  (which returns or raises), wait at most 15 seconds, disarm, report. The handler of
  \<open>except Exception\<close> only prints: when \<open>sendText\<close> raises there is no second
  critical section, and the state left is the armed one with what the other threads did
  to it meanwhile. \<open>send_raises\<close> is the exception of \<open>sendText\<close>, if any; \<open>obs\<close> is
  the receive callback of the feed thread; \<open>events\<close> is what the other threads do before
  the function returns. The two \<open>with print_lock\<close> blocks (lines 397 to 399 and 412 to
  423) only print and touch none of the three variables; the function describes a
  sender that is granted \<open>print_lock\<close> both times.
\<close>

definition send_and_wait ::
  "(ack_state \<Rightarrow> pydict \<Rightarrow> ack_state) \<Rightarrow> ack_state \<Rightarrow> string \<Rightarrow> exn option \<Rightarrow> feed \<Rightarrow> dm_result" where
  "send_and_wait obs st destination_node_id send_raises events =
     (let st1 = arm destination_node_id st in
      case send_raises of
        Some e \<Rightarrow>
          \<lparr>final = run_feed obs st1 events, report = SendFailed e, status_read = None,
           waited = 0\<rparr>
      | None \<Rightarrow>
          let blocked = event_wait 15 (ack_received_event st1) (first_set obs st1 events);
              st2 = run_feed obs st1 events;
              (status, st3) = disarm st2
          in \<lparr>final = st3, report = classify status, status_read = Some status,
              waited = blocked\<rparr>)"

definition send_direct_message_and_wait ::
  "ack_state \<Rightarrow> string \<Rightarrow> exn option \<Rightarrow> feed \<Rightarrow> dm_result" where
  "send_direct_message_and_wait = send_and_wait cli_observe"

text \<open>\<open>MeshtasticGUI.send_direct_message_thread\<close> (lines 419 to 447), the same steps.\<close>

definition send_direct_message_thread ::
  "ack_state \<Rightarrow> string \<Rightarrow> exn option \<Rightarrow> feed \<Rightarrow> dm_result" where
  "send_direct_message_thread = send_and_wait gui_observe"

section \<open>Example packets\<close>

definition routing_packet :: "string \<Rightarrow> string \<Rightarrow> pydict" where
  "routing_packet src reason =
     [(''fromId'', PyStr src),
      (''decoded'', PyDict [(''portnum'', PyStr ''ROUTING_APP''),
                            (''routing'', PyDict [(''errorReason'', PyStr reason)])])]"

definition text_packet :: "string \<Rightarrow> string \<Rightarrow> pydict" where
  "text_packet src txt =
     [(''fromId'', PyStr src),
      (''decoded'', PyDict [(''portnum'', PyStr ''TEXT_MESSAGE_APP''), (''text'', PyStr txt)])]"

text \<open>
  A ROUTING event from \<open>X\<close> whose routing payload carries the error reason \<open>r\<close>, as
  the device library delivers it.
\<close>

definition routing_event :: "string \<Rightarrow> pyval \<Rightarrow> pydict \<Rightarrow> bool" where
  "routing_event X r p =
     (map_of p ''fromId'' = Some (PyStr X) \<and>
      (case map_of p ''decoded'' of
         Some (PyDict d) \<Rightarrow>
           map_of d ''portnum'' = Some (PyStr ''ROUTING_APP'') \<and>
           (case map_of d ''routing'' of
              Some (PyDict rt) \<Rightarrow> map_of rt ''errorReason'' = Some r
            | _ \<Rightarrow> False)
       | _ \<Rightarrow> False))"

text \<open>A ROUTING event from \<open>X\<close> whose routing payload has no error reason.\<close>

definition bare_routing_packet :: "string \<Rightarrow> pydict" where
  "bare_routing_packet src =
     [(''fromId'', PyStr src),
      (''decoded'', PyDict [(''portnum'', PyStr ''ROUTING_APP''), (''routing'', PyDict [])])]"

section \<open>What a callback does with a packet while \<open>X\<close> is awaited\<close>

text \<open>
  Whether the callback takes the packet as the acknowledgment from \<open>X\<close>, and the status
  it then records, read off the callback itself by running it in the state just armed
  for \<open>X\<close>.
\<close>

definition consumes :: "(ack_state \<Rightarrow> pydict \<Rightarrow> ack_state) \<Rightarrow> string \<Rightarrow> pydict \<Rightarrow> bool" where
  "consumes obs X p = ack_received_event (obs (arm X init_state) p)"

definition recorded :: "(ack_state \<Rightarrow> pydict \<Rightarrow> ack_state) \<Rightarrow> string \<Rightarrow> pydict \<Rightarrow> pyval" where
  "recorded obs X p = ack_response_status (obs (arm X init_state) p)"

text \<open>
  A callback is uniform when, in every state that awaits \<open>X\<close>, it does to the state what
  it does to the freshly armed one; it is idle when it changes nothing while no node is
  awaited. Both callbacks are, which is proved below.
\<close>

definition uniform :: "(ack_state \<Rightarrow> pydict \<Rightarrow> ack_state) \<Rightarrow> bool" where
  "uniform obs =
     (\<forall>st X p. waiting_for_ack_from st = Some X \<longrightarrow>
        obs st p =
          (if consumes obs X p
           then st\<lparr>ack_response_status := recorded obs X p, ack_received_event := True\<rparr>
           else st))"

definition idle_when_unarmed :: "(ack_state \<Rightarrow> pydict \<Rightarrow> ack_state) \<Rightarrow> bool" where
  "idle_when_unarmed obs = (\<forall>st p. waiting_for_ack_from st = None \<longrightarrow> obs st p = st)"

text \<open>
  No packet of a feed is taken as an acknowledgment: each one is handled while no node
  is awaited, or is not what the callback consumes for the node awaited at that moment.
  \<open>w\<close> is the node awaited when the feed starts; the critical sections of other senders
  change it on the way.
\<close>

fun none_taken ::
  "(ack_state \<Rightarrow> pydict \<Rightarrow> ack_state) \<Rightarrow> string option \<Rightarrow> feed \<Rightarrow> bool" where
  "none_taken obs w [] = True"
| "none_taken obs w ((t, Arm d) # es) = none_taken obs (Some d) es"
| "none_taken obs w ((t, Disarm) # es) = none_taken obs None es"
| "none_taken obs w ((t, Observe p) # es) =
     ((case w of None \<Rightarrow> True | Some d \<Rightarrow> \<not> consumes obs d p) \<and> none_taken obs w es)"

section \<open>Sequences of critical sections\<close>

text \<open>
  The destination of the most recent arm of a sequence, with the critical sections that
  came after it.
\<close>

fun since_last_arm :: "ack_op list \<Rightarrow> (string \<times> ack_op list) option" where
  "since_last_arm [] = None"
| "since_last_arm (x # xs) =
     (case since_last_arm xs of
        Some r \<Rightarrow> Some r
      | None \<Rightarrow> (case x of Arm d \<Rightarrow> Some (d, xs) | _ \<Rightarrow> None))"

text \<open>
  The value \<open>v\<close> was recorded by a callback invocation after the most recent arm: one
  of the packets handled since then was consumed with \<open>v\<close> as its reason.
\<close>

fun records :: "(ack_state \<Rightarrow> pydict \<Rightarrow> ack_state) \<Rightarrow> string \<Rightarrow> pyval \<Rightarrow> ack_op \<Rightarrow> bool" where
  "records obs d v (Observe q) = (consumes obs d q \<and> recorded obs d q = v)"
| "records obs d v _ = False"

definition recorded_since_arm ::
  "(ack_state \<Rightarrow> pydict \<Rightarrow> ack_state) \<Rightarrow> ack_op list \<Rightarrow> pyval \<Rightarrow> bool" where
  "recorded_since_arm obs ops v =
     (case since_last_arm ops of
        None \<Rightarrow> False
      | Some (d, suffix) \<Rightarrow> list_ex (records obs d v) suffix)"

text \<open>The invariant of every sequence of critical sections.\<close>

definition trace_inv :: "(ack_state \<Rightarrow> pydict \<Rightarrow> ack_state) \<Rightarrow> ack_op list \<Rightarrow> bool" where
  "trace_inv obs xs =
     ((ack_response_status (run_ops obs xs) = PyStr ''UNKNOWN''
        \<or> recorded_since_arm obs xs (ack_response_status (run_ops obs xs)))
      \<and> (case waiting_for_ack_from (run_ops obs xs) of
            None \<Rightarrow> True
          | Some d \<Rightarrow> (case since_last_arm xs of None \<Rightarrow> False | Some (d', s) \<Rightarrow> d' = d)))"

section \<open>Sender threads of the command-line tool\<close>

text \<open>
  \<open>main\<close> starts one thread per \<open>dm\<close> command whose destination is truthy (lines 542 to
  549) and does not wait for it. A sender thread is at one of four places: started,
  past its first critical section, past \<open>sendText\<close>, or finished with its report. The
  feed thread runs \<open>on_receive\<close> at any time. Time is left out: the step that ends the
  wait may be taken whenever the sender is waiting.
\<close>

datatype sender_pc = Started | Armed | Sent | Finished dm_report

record sys =
  ack :: ack_state
  senders :: "(string \<times> sender_pc) list"

definition init_sys :: sys where
  "init_sys = \<lparr>ack = init_state, senders = []\<rparr>"

inductive sys_step :: "sys \<Rightarrow> sys \<Rightarrow> bool" where
  spawn: "destination_node_id \<noteq> [] \<Longrightarrow>
     sys_step s (s\<lparr>senders := senders s @ [(destination_node_id, Started)]\<rparr>)"
| arms: "i < length (senders s) \<Longrightarrow> senders s ! i = (d, Started) \<Longrightarrow>
     sys_step s (s\<lparr>ack := arm d (ack s), senders := (senders s)[i := (d, Armed)]\<rparr>)"
| send_returns: "i < length (senders s) \<Longrightarrow> senders s ! i = (d, Armed) \<Longrightarrow>
     sys_step s (s\<lparr>senders := (senders s)[i := (d, Sent)]\<rparr>)"
| send_raises: "i < length (senders s) \<Longrightarrow> senders s ! i = (d, Armed) \<Longrightarrow>
     sys_step s (s\<lparr>senders := (senders s)[i := (d, Finished (SendFailed e))]\<rparr>)"
| disarms: "i < length (senders s) \<Longrightarrow> senders s ! i = (d, Sent) \<Longrightarrow>
     sys_step s (s\<lparr>ack := snd (disarm (ack s)),
                   senders := (senders s)[i := (d, Finished (classify (fst (disarm (ack s)))))]\<rparr>)"
| receives: "sys_step s (s\<lparr>ack := fst (on_receive (ack s) packet)\<rparr>)"

inductive reachable :: "sys \<Rightarrow> bool" where
  start: "reachable init_sys"
| step: "reachable s \<Longrightarrow> sys_step s t \<Longrightarrow> reachable t"

text \<open>A sender is outstanding between its two critical sections.\<close>

fun in_flight :: "sender_pc \<Rightarrow> bool" where
  "in_flight Armed = True"
| "in_flight Sent = True"
| "in_flight _ = False"

definition outstanding :: "sys \<Rightarrow> nat" where
  "outstanding s = length (filter (\<lambda>(d, pc). in_flight pc) (senders s))"

text \<open>
  The awaited node, when there is one, is a non-empty destination of a sender that is
  past its first critical section.
\<close>

definition slot_inv :: "sys \<Rightarrow> bool" where
  "slot_inv s =
     (case waiting_for_ack_from (ack s) of
        None \<Rightarrow> True
      | Some d \<Rightarrow> d \<noteq> [] \<and> list_ex (\<lambda>(d', pc). d' = d \<and> pc \<noteq> Started) (senders s))"

text \<open>Every sender was started with a truthy destination.\<close>

definition senders_ok :: "sys \<Rightarrow> bool" where
  "senders_ok s = list_all (\<lambda>(d, pc). d \<noteq> []) (senders s)"

section \<open>Receiving while nothing is awaited\<close>

lemma on_receive_try_unarmed:
  assumes "waiting_for_ack_from st = None"
  shows "on_receive_try st packet =
           (if \<not> truthy (dict_get packet ''decoded'' PyNone) then Inr (st, NotDecoded)
            else if is_dict (dict_get packet ''decoded'' PyNone) then Inr (st, Printed)
            else Inl AttributeError)"
proof (cases "dict_get packet ''decoded'' PyNone")
  case (PyDict d)
  with assms show ?thesis
    by (simp add: on_receive_try_def ack_match_def Let_def)
qed (simp_all add: on_receive_try_def Let_def)

text \<open>
  C5. While no acknowledgment is awaited (\<open>waiting_for_ack_from\<close> is \<open>None\<close>), a received
  packet changes none of the three shared variables and is never taken as an
  acknowledgment: the command-line callback drops it when it has no decoded payload and
  prints it otherwise (or prints the error when the payload is not a dictionary), the
  graphical callback queues it for display.
\<close>

theorem observe_without_arm_is_frame:
  assumes "waiting_for_ack_from st = None"
  shows "fst (on_receive st packet) = st
       \<and> snd (on_receive st packet) \<noteq> AckConsumed
       \<and> snd (on_receive st packet) =
           (if \<not> truthy (dict_get packet ''decoded'' PyNone) then NotDecoded
            else if is_dict (dict_get packet ''decoded'' PyNone) then Printed
            else ErrorPrinted AttributeError)
       \<and> on_packet_received st packet = Inr (st, Queued)"
  using assms
  by (simp add: on_receive_def on_receive_try_unarmed on_packet_received_def)

theorem observe_without_arm_is_frame_witness:
  "waiting_for_ack_from init_state = None
   \<and> on_receive init_state (routing_packet ''!aaaaaaaa'' ''NONE'') = (init_state, Printed)
   \<and> on_packet_received init_state (routing_packet ''!aaaaaaaa'' ''NONE'')
       = Inr (init_state, Queued)"
proof -
  have h: "waiting_for_ack_from init_state = None"
    by (simp add: init_state_def)
  have d: "dict_get (routing_packet ''!aaaaaaaa'' ''NONE'') ''decoded'' PyNone
             = PyDict [(''portnum'', PyStr ''ROUTING_APP''),
                       (''routing'', PyDict [(''errorReason'', PyStr ''NONE'')])]"
    by (simp add: dict_get_def routing_packet_def)
  from observe_without_arm_is_frame [OF h, of "routing_packet ''!aaaaaaaa'' ''NONE''"] d h
  show ?thesis
    by (simp add: prod_eq_iff)
qed

section \<open>Receiving while an acknowledgment is awaited\<close>

text \<open>
  C6. While an acknowledgment from \<open>X\<close> is awaited, a packet with a decoded payload whose
  sender is not \<open>X\<close>, or whose port is not \<open>ROUTING_APP\<close>, is not taken as the
  acknowledgment: the state is unchanged, the command-line callback prints the packet and
  the graphical callback queues it for display.
\<close>

theorem other_traffic_passes_through:
  assumes "waiting_for_ack_from st = Some X"
    and "map_of packet ''fromId'' = Some src"
    and "map_of packet ''decoded'' = Some (PyDict d)"
    and "map_of d ''portnum'' = Some port"
    and "src \<noteq> PyStr X \<or> port \<noteq> PyStr ''ROUTING_APP''"
  shows "on_receive st packet = (st, Printed)
       \<and> on_packet_received st packet = Inr (st, Queued)"
proof -
  from assms(4) have "d \<noteq> []" by auto
  with assms have "on_receive_try st packet = Inr (st, Printed)"
    by (auto simp: on_receive_try_def dict_get_def ack_match_def Let_def)
  moreover from assms have "on_packet_received st packet = Inr (st, Queued)"
    by (auto simp: on_packet_received_def dict_get_def)
  ultimately show ?thesis
    by (simp add: on_receive_def)
qed

theorem other_traffic_passes_through_witness:
  "on_receive (arm ''!aaaaaaaa'' init_state) (routing_packet ''!bbbbbbbb'' ''NONE'')
     = (arm ''!aaaaaaaa'' init_state, Printed)
   \<and> on_packet_received (arm ''!aaaaaaaa'' init_state) (routing_packet ''!bbbbbbbb'' ''NONE'')
     = Inr (arm ''!aaaaaaaa'' init_state, Queued)
   \<and> on_receive (arm ''!aaaaaaaa'' init_state) (text_packet ''!aaaaaaaa'' ''hello'')
     = (arm ''!aaaaaaaa'' init_state, Printed)
   \<and> on_packet_received (arm ''!aaaaaaaa'' init_state) (text_packet ''!aaaaaaaa'' ''hello'')
     = Inr (arm ''!aaaaaaaa'' init_state, Queued)"
proof -
  have w: "waiting_for_ack_from (arm ''!aaaaaaaa'' init_state) = Some ''!aaaaaaaa''"
    by (simp add: arm_def)
  have r: "on_receive (arm ''!aaaaaaaa'' init_state) (routing_packet ''!bbbbbbbb'' ''NONE'')
             = (arm ''!aaaaaaaa'' init_state, Printed)
         \<and> on_packet_received (arm ''!aaaaaaaa'' init_state)
               (routing_packet ''!bbbbbbbb'' ''NONE'')
             = Inr (arm ''!aaaaaaaa'' init_state, Queued)"
    by (rule other_traffic_passes_through [OF w, where src = "PyStr ''!bbbbbbbb''"
          and port = "PyStr ''ROUTING_APP''"
          and d = "[(''portnum'', PyStr ''ROUTING_APP''),
                    (''routing'', PyDict [(''errorReason'', PyStr ''NONE'')])]"])
       (simp_all add: routing_packet_def)
  have t: "on_receive (arm ''!aaaaaaaa'' init_state) (text_packet ''!aaaaaaaa'' ''hello'')
             = (arm ''!aaaaaaaa'' init_state, Printed)
         \<and> on_packet_received (arm ''!aaaaaaaa'' init_state)
               (text_packet ''!aaaaaaaa'' ''hello'')
             = Inr (arm ''!aaaaaaaa'' init_state, Queued)"
    by (rule other_traffic_passes_through [OF w, where src = "PyStr ''!aaaaaaaa''"
          and port = "PyStr ''TEXT_MESSAGE_APP''"
          and d = "[(''portnum'', PyStr ''TEXT_MESSAGE_APP''), (''text'', PyStr ''hello'')]"])
       (simp_all add: text_packet_def)
  from r t show ?thesis by simp
qed

section \<open>Both callbacks treat every armed state alike\<close>

lemma cli_uniform: "uniform cli_observe"
  unfolding uniform_def consumes_def recorded_def cli_observe_def on_receive_def
    on_receive_try_def ack_match_def arm_def init_state_def Let_def
  by (auto split: sum.splits pyval.splits)

lemma gui_uniform: "uniform gui_observe"
  unfolding uniform_def consumes_def recorded_def gui_observe_def on_packet_received_def
    arm_def init_state_def
  by (auto split: sum.splits)

lemma uniform_step:
  "uniform obs \<Longrightarrow> waiting_for_ack_from st = Some X \<Longrightarrow>
   obs st p = (if consumes obs X p
               then st\<lparr>ack_response_status := recorded obs X p, ack_received_event := True\<rparr>
               else st)"
  unfolding uniform_def by blast

lemma idle_cli: "idle_when_unarmed cli_observe"
  unfolding idle_when_unarmed_def cli_observe_def
  by (simp add: on_receive_def on_receive_try_unarmed)

lemma idle_gui: "idle_when_unarmed gui_observe"
  unfolding idle_when_unarmed_def gui_observe_def
  by (simp add: on_packet_received_def)

lemma routing_event_fields:
  assumes "routing_event X r p"
  obtains d rt where "map_of p ''fromId'' = Some (PyStr X)"
    and "map_of p ''decoded'' = Some (PyDict d)"
    and "map_of d ''portnum'' = Some (PyStr ''ROUTING_APP'')"
    and "map_of d ''routing'' = Some (PyDict rt)"
    and "map_of rt ''errorReason'' = Some r"
proof -
  from assms have f: "map_of p ''fromId'' = Some (PyStr X)"
    by (simp add: routing_event_def)
  from assms obtain d where d: "map_of p ''decoded'' = Some (PyDict d)"
    by (cases "map_of p ''decoded''"; cases "the (map_of p ''decoded'')")
       (simp_all add: routing_event_def)
  with assms have pn: "map_of d ''portnum'' = Some (PyStr ''ROUTING_APP'')"
    by (simp add: routing_event_def)
  from assms d obtain rt where rt: "map_of d ''routing'' = Some (PyDict rt)"
    by (cases "map_of d ''routing''"; cases "the (map_of d ''routing'')")
       (simp_all add: routing_event_def)
  with assms d have "map_of rt ''errorReason'' = Some r"
    by (simp add: routing_event_def)
  with f d pn rt show thesis by (rule that)
qed


lemma on_receive_routing_event:
  assumes "waiting_for_ack_from st = Some X" and "X \<noteq> []" and "routing_event X r p"
  shows "on_receive st p
           = (st\<lparr>ack_response_status := r, ack_received_event := True\<rparr>, AckConsumed)"
proof -
  from assms(3) obtain d rt where f: "map_of p ''fromId'' = Some (PyStr X)"
    "map_of p ''decoded'' = Some (PyDict d)"
    "map_of d ''portnum'' = Some (PyStr ''ROUTING_APP'')"
    "map_of d ''routing'' = Some (PyDict rt)"
    "map_of rt ''errorReason'' = Some r"
    by (rule routing_event_fields)
  from f(3) have "d \<noteq> []" by auto
  with f assms(1,2) show ?thesis
    by (simp add: on_receive_def on_receive_try_def dict_get_def ack_match_def Let_def)
qed

lemma on_packet_received_routing_event:
  assumes "waiting_for_ack_from st = Some X" and "X \<noteq> []" and "routing_event X r p"
  shows "on_packet_received st p
           = Inr (st\<lparr>ack_response_status := r, ack_received_event := True\<rparr>, AckConsumed)"
proof -
  from assms(3) obtain d rt where f: "map_of p ''fromId'' = Some (PyStr X)"
    "map_of p ''decoded'' = Some (PyDict d)"
    "map_of d ''portnum'' = Some (PyStr ''ROUTING_APP'')"
    "map_of d ''routing'' = Some (PyDict rt)"
    "map_of rt ''errorReason'' = Some r"
    by (rule routing_event_fields)
  with assms(1,2) show ?thesis
    by (simp add: on_packet_received_def dict_get_def)
qed

lemma routing_event_consumed:
  assumes "X \<noteq> []" and "routing_event X r p"
  shows "consumes cli_observe X p" and "recorded cli_observe X p = r"
    and "consumes gui_observe X p" and "recorded gui_observe X p = r"
proof -
  have w: "waiting_for_ack_from (arm X init_state) = Some X"
    by (simp add: arm_def)
  from on_receive_routing_event [OF w assms]
  show "consumes cli_observe X p" and "recorded cli_observe X p = r"
    by (simp_all add: consumes_def recorded_def cli_observe_def)
  from on_packet_received_routing_event [OF w assms]
  show "consumes gui_observe X p" and "recorded gui_observe X p = r"
    by (simp_all add: consumes_def recorded_def gui_observe_def)
qed

text \<open>
  Which packets a callback takes as the acknowledgment from \<open>X\<close>, in terms of their
  fields.
\<close>

lemma consumes_cli_iff:
  "consumes cli_observe X p \<longleftrightarrow>
     X \<noteq> [] \<and>
     (\<exists>d. dict_get p ''decoded'' PyNone = PyDict d \<and> d \<noteq> [] \<and>
          dict_get p ''fromId'' (PyStr ''N/A'') = PyStr X \<and>
          dict_get d ''portnum'' (PyStr ''N_A'') = PyStr ''ROUTING_APP'' \<and>
          is_dict (dict_get d ''routing'' (PyDict [])))"
proof (cases "dict_get p ''decoded'' PyNone")
  case (PyDict d)
  then show ?thesis
    by (cases "dict_get d ''routing'' (PyDict [])")
       (auto simp: consumes_def cli_observe_def on_receive_def on_receive_try_def
          ack_match_def arm_def init_state_def Let_def)
qed (simp_all add: consumes_def cli_observe_def on_receive_def on_receive_try_def
      arm_def init_state_def Let_def)

lemma consumes_gui_iff:
  "consumes gui_observe X p \<longleftrightarrow>
     X \<noteq> [] \<and> dict_get p ''fromId'' PyNone = PyStr X \<and>
     (\<exists>d. dict_get p ''decoded'' (PyDict []) = PyDict d \<and>
          dict_get d ''portnum'' PyNone = PyStr ''ROUTING_APP'' \<and>
          is_dict (dict_get d ''routing'' (PyDict [])))"
proof (cases "dict_get p ''decoded'' (PyDict [])")
  case (PyDict d)
  then show ?thesis
    by (cases "dict_get d ''routing'' (PyDict [])")
       (auto simp: consumes_def gui_observe_def on_packet_received_def
          arm_def init_state_def)
qed (simp_all add: consumes_def gui_observe_def on_packet_received_def
      arm_def init_state_def)

lemma observe_keeps_waiting:
  assumes "uniform obs" and "idle_when_unarmed obs"
  shows "waiting_for_ack_from (obs st p) = waiting_for_ack_from st"
proof (cases "waiting_for_ack_from st")
  case None
  with assms(2) show ?thesis
    by (simp add: idle_when_unarmed_def)
next
  case (Some X)
  with assms(1) show ?thesis
    by (simp add: uniform_step)
qed

lemma observe_not_taken:
  assumes "uniform obs" and "idle_when_unarmed obs"
    and "case waiting_for_ack_from st of None \<Rightarrow> True | Some d \<Rightarrow> \<not> consumes obs d p"
  shows "obs st p = st"
proof (cases "waiting_for_ack_from st")
  case None
  with assms(2) show ?thesis
    by (simp add: idle_when_unarmed_def)
next
  case (Some X)
  with assms(1,3) show ?thesis
    by (simp add: uniform_step)
qed

section \<open>Feeds\<close>

lemma run_feed_append: "run_feed obs st (a @ b) = run_feed obs (run_feed obs st a) b"
  by (induction a arbitrary: st) auto

lemma packets_keep_waiting:
  assumes "uniform obs" and "idle_when_unarmed obs"
  shows "waiting_for_ack_from (run_feed obs st (packets_only ps)) = waiting_for_ack_from st"
proof (induction ps arbitrary: st)
  case Nil
  show ?case by (simp add: packets_only_def)
next
  case (Cons a ps)
  obtain t p where a: "a = (t, p)" by (cases a)
  have "waiting_for_ack_from (run_feed obs (obs st p) (packets_only ps))
          = waiting_for_ack_from (obs st p)"
    by (rule Cons.IH)
  with assms a show ?case
    by (simp add: packets_only_def observe_keeps_waiting)
qed

lemma none_taken_packets_only:
  "none_taken obs (Some X) (packets_only ps) \<longleftrightarrow> (\<forall>(t, q) \<in> set ps. \<not> consumes obs X q)"
  by (induction ps) (auto simp: packets_only_def)

text \<open>
  While no packet is taken, the status stays \<open>UNKNOWN\<close> and the flag stays clear,
  whatever other senders arm or disarm meanwhile.
\<close>

lemma unknown_status_kept:
  assumes "uniform obs" and "idle_when_unarmed obs"
  shows "none_taken obs (waiting_for_ack_from st) es \<Longrightarrow>
         ack_response_status st = PyStr ''UNKNOWN'' \<Longrightarrow>
         ack_response_status (run_feed obs st es) = PyStr ''UNKNOWN''"
proof (induction es arbitrary: st)
  case Nil
  then show ?case by simp
next
  case (Cons a es)
  obtain t e where a: "a = (t, e)" by (cases a)
  show ?case
  proof (cases e)
    case (Arm d)
    with a Cons.prems have "none_taken obs (waiting_for_ack_from (arm d st)) es"
      and "ack_response_status (arm d st) = PyStr ''UNKNOWN''"
      by (simp_all add: arm_def)
    then have "ack_response_status (run_feed obs (arm d st) es) = PyStr ''UNKNOWN''"
      by (rule Cons.IH)
    with a Arm show ?thesis by simp
  next
    case (Observe p)
    with a Cons.prems assms have "obs st p = st"
      by (intro observe_not_taken) simp_all
    moreover from a Observe Cons.prems have "none_taken obs (waiting_for_ack_from st) es"
      by simp
    ultimately show ?thesis
      using a Observe Cons.IH [of st] Cons.prems(2) by simp
  next
    case Disarm
    with a Cons.prems have "none_taken obs (waiting_for_ack_from (snd (disarm st))) es"
      and "ack_response_status (snd (disarm st)) = PyStr ''UNKNOWN''"
      by (simp_all add: disarm_def)
    then have "ack_response_status (run_feed obs (snd (disarm st)) es) = PyStr ''UNKNOWN''"
      by (rule Cons.IH)
    with a Disarm show ?thesis by simp
  qed
qed

lemma flag_stays_clear:
  assumes "uniform obs" and "idle_when_unarmed obs"
  shows "none_taken obs (waiting_for_ack_from st) es \<Longrightarrow> \<not> ack_received_event st \<Longrightarrow>
         first_set obs st es = None"
proof (induction es arbitrary: st)
  case Nil
  then show ?case by simp
next
  case (Cons a es)
  obtain t e where a: "a = (t, e)" by (cases a)
  show ?case
  proof (cases e)
    case (Arm d)
    with a Cons.prems have "none_taken obs (waiting_for_ack_from (arm d st)) es"
      and "\<not> ack_received_event (arm d st)"
      by (simp_all add: arm_def)
    then have "first_set obs (arm d st) es = None"
      by (rule Cons.IH)
    with a Arm show ?thesis by (simp add: arm_def)
  next
    case (Observe p)
    with a Cons.prems assms have "obs st p = st"
      by (intro observe_not_taken) simp_all
    moreover from a Observe Cons.prems have "none_taken obs (waiting_for_ack_from st) es"
      by simp
    ultimately show ?thesis
      using a Observe Cons.IH [of st] Cons.prems(2) by simp
  next
    case Disarm
    with a Cons.prems have "none_taken obs (waiting_for_ack_from (snd (disarm st))) es"
      and "\<not> ack_received_event (snd (disarm st))"
      by (simp_all add: disarm_def)
    then have "first_set obs (snd (disarm st)) es = None"
      by (rule Cons.IH)
    with a Disarm Cons.prems(2) show ?thesis by (simp add: disarm_def)
  qed
qed

lemma send_and_wait_quiet:
  assumes "uniform obs" and "idle_when_unarmed obs" and "none_taken obs (Some X) es"
  shows "status_read (send_and_wait obs st X None es) = Some (PyStr ''UNKNOWN'')"
    and "report (send_and_wait obs st X None es) = TimedOut"
    and "waited (send_and_wait obs st X None es) = 15"
proof -
  have w: "waiting_for_ack_from (arm X st) = Some X"
    and u: "ack_response_status (arm X st) = PyStr ''UNKNOWN''"
    and e: "\<not> ack_received_event (arm X st)"
    by (simp_all add: arm_def)
  from assms(3) w have n: "none_taken obs (waiting_for_ack_from (arm X st)) es"
    by simp
  have r: "ack_response_status (run_feed obs (arm X st) es) = PyStr ''UNKNOWN''"
    using assms(1,2) n u by (rule unknown_status_kept)
  have f: "first_set obs (arm X st) es = None"
    using assms(1,2) n e by (rule flag_stays_clear)
  from r show "status_read (send_and_wait obs st X None es) = Some (PyStr ''UNKNOWN'')"
    and "report (send_and_wait obs st X None es) = TimedOut"
    by (simp_all add: send_and_wait_def disarm_def Let_def classify_def)
  from f e show "waited (send_and_wait obs st X None es) = 15"
    by (simp add: send_and_wait_def disarm_def Let_def event_wait_def)
qed

lemma send_and_wait_bounded:
  "0 \<le> waited (send_and_wait obs st X send_raises es)
   \<and> waited (send_and_wait obs st X send_raises es) \<le> 15"
  by (cases send_raises)
     (auto simp: send_and_wait_def disarm_def Let_def event_wait_def split: option.splits)

text \<open>
  An acknowledgment that carries \<open>UNKNOWN\<close>, taken while only packets have arrived
  since the arm, and nothing taken after it.
\<close>

lemma send_and_wait_unknown_ack:
  assumes "uniform obs" and "idle_when_unarmed obs"
    and "consumes obs X p" and "recorded obs X p = PyStr ''UNKNOWN''"
    and "none_taken obs (Some X) post"
  shows "status_read (send_and_wait obs st X None (packets_only pre @ (t, Observe p) # post))
           = Some (PyStr ''UNKNOWN'')"
    and "report (send_and_wait obs st X None (packets_only pre @ (t, Observe p) # post))
           = TimedOut"
proof -
  let ?s = "run_feed obs (arm X st) (packets_only pre)"
  have w: "waiting_for_ack_from ?s = Some X"
    using packets_keep_waiting [OF assms(1,2), of "arm X st" pre] by (simp add: arm_def)
  with assms(1,3,4) have o: "obs ?s p
      = ?s\<lparr>ack_response_status := PyStr ''UNKNOWN'', ack_received_event := True\<rparr>"
    by (simp add: uniform_step)
  with w assms(5) have "none_taken obs (waiting_for_ack_from (obs ?s p)) post"
    and "ack_response_status (obs ?s p) = PyStr ''UNKNOWN''"
    by simp_all
  with assms(1,2) have "ack_response_status (run_feed obs (obs ?s p) post) = PyStr ''UNKNOWN''"
    by (rule unknown_status_kept)
  then have r: "ack_response_status
      (run_feed obs (arm X st) (packets_only pre @ (t, Observe p) # post)) = PyStr ''UNKNOWN''"
    by (simp add: run_feed_append)
  then show "status_read (send_and_wait obs st X None (packets_only pre @ (t, Observe p) # post))
           = Some (PyStr ''UNKNOWN'')"
    and "report (send_and_wait obs st X None (packets_only pre @ (t, Observe p) # post))
           = TimedOut"
    by (simp_all add: send_and_wait_def disarm_def Let_def classify_def)
qed

lemma example_traffic_not_consumed:
  "\<not> consumes cli_observe ''!bbbbbbbb'' (text_packet ''!bbbbbbbb'' ''hi'')"
  "\<not> consumes gui_observe ''!bbbbbbbb'' (text_packet ''!bbbbbbbb'' ''hi'')"
  "\<not> consumes cli_observe ''!cccccccc'' (routing_packet ''!aaaaaaaa'' ''NONE'')"
  "\<not> consumes gui_observe ''!cccccccc'' (routing_packet ''!aaaaaaaa'' ''NONE'')"
  by (simp_all add: consumes_def cli_observe_def gui_observe_def on_receive_def
      on_receive_try_def on_packet_received_def ack_match_def dict_get_def Let_def
      arm_def init_state_def text_packet_def routing_packet_def)

section \<open>One acknowledgment, or several, before the status is read\<close>

lemma observes_keep_waiting:
  assumes "uniform obs" and "idle_when_unarmed obs"
  shows "list_all is_observe ys \<Longrightarrow>
         waiting_for_ack_from (foldl (exec_op obs) st ys) = waiting_for_ack_from st"
proof (induction ys arbitrary: st)
  case Nil
  show ?case by simp
next
  case (Cons y ys)
  then obtain p where y: "y = Observe p"
    by (cases y) simp_all
  from Cons.prems have "list_all is_observe ys" by simp
  then have "waiting_for_ack_from (foldl (exec_op obs) (obs st p) ys)
               = waiting_for_ack_from (obs st p)"
    by (rule Cons.IH)
  with assms y show ?case
    by (simp add: observe_keeps_waiting)
qed

lemma awaited_after_arm:
  assumes "uniform obs" and "idle_when_unarmed obs" and "list_all is_observe ys"
  shows "waiting_for_ack_from (run_ops obs (xs @ Arm X # ys)) = Some X"
  using observes_keep_waiting [OF assms, of "arm X (run_ops obs xs)"]
  by (simp add: run_ops_def arm_def)

lemma awaited_after_disarm:
  assumes "uniform obs" and "idle_when_unarmed obs" and "list_all is_observe ws"
  shows "waiting_for_ack_from (run_ops obs (zs @ Disarm # ws)) = None"
  using observes_keep_waiting [OF assms, of "snd (disarm (run_ops obs zs))"]
  by (simp add: run_ops_def disarm_def)

text \<open>
  C1 (as the code has it). After a sender has armed for a non-empty \<open>X\<close>, and for as long
  as only packets have been handled since (no sender has armed or disarmed), every
  ROUTING event from \<open>X\<close> that carries a reason is taken as the acknowledgment: the
  reason is recorded over whatever was recorded before, the event flag is set, the
  packet is neither printed nor queued, and \<open>X\<close> stays awaited, so the next ROUTING
  event from \<open>X\<close> is taken as well. After a disarm, and until the next arm, no packet is
  taken.
\<close>

theorem armed_consumes_until_disarm:
  assumes "X \<noteq> []" and "routing_event X r p"
    and "list_all is_observe ys" and "list_all is_observe ws"
  shows "waiting_for_ack_from (run_ops cli_observe (xs @ Arm X # ys)) = Some X
       \<and> on_receive (run_ops cli_observe (xs @ Arm X # ys)) p
           = ((run_ops cli_observe (xs @ Arm X # ys))
                \<lparr>ack_response_status := r, ack_received_event := True\<rparr>, AckConsumed)
       \<and> waiting_for_ack_from (run_ops cli_observe (xs @ Arm X # ys @ [Observe p])) = Some X
       \<and> waiting_for_ack_from (run_ops gui_observe (xs @ Arm X # ys)) = Some X
       \<and> on_packet_received (run_ops gui_observe (xs @ Arm X # ys)) p
           = Inr ((run_ops gui_observe (xs @ Arm X # ys))
                    \<lparr>ack_response_status := r, ack_received_event := True\<rparr>, AckConsumed)
       \<and> waiting_for_ack_from (run_ops gui_observe (xs @ Arm X # ys @ [Observe p])) = Some X
       \<and> fst (on_receive (run_ops cli_observe (zs @ Disarm # ws)) q)
           = run_ops cli_observe (zs @ Disarm # ws)
       \<and> snd (on_receive (run_ops cli_observe (zs @ Disarm # ws)) q) \<noteq> AckConsumed
       \<and> on_packet_received (run_ops gui_observe (zs @ Disarm # ws)) q
           = Inr (run_ops gui_observe (zs @ Disarm # ws), Queued)"
proof -
  let ?c = "run_ops cli_observe (xs @ Arm X # ys)"
  let ?g = "run_ops gui_observe (xs @ Arm X # ys)"
  let ?cd = "run_ops cli_observe (zs @ Disarm # ws)"
  let ?gd = "run_ops gui_observe (zs @ Disarm # ws)"
  have wc: "waiting_for_ack_from ?c = Some X"
    using cli_uniform idle_cli assms(3) by (rule awaited_after_arm)
  have wg: "waiting_for_ack_from ?g = Some X"
    using gui_uniform idle_gui assms(3) by (rule awaited_after_arm)
  from assms(3) have ys': "list_all is_observe (ys @ [Observe p])"
    by simp
  have wc': "waiting_for_ack_from (run_ops cli_observe (xs @ Arm X # ys @ [Observe p])) = Some X"
    using awaited_after_arm [OF cli_uniform idle_cli ys'] by simp
  have wg': "waiting_for_ack_from (run_ops gui_observe (xs @ Arm X # ys @ [Observe p])) = Some X"
    using awaited_after_arm [OF gui_uniform idle_gui ys'] by simp
  have c: "on_receive ?c p
             = (?c\<lparr>ack_response_status := r, ack_received_event := True\<rparr>, AckConsumed)"
    using wc assms(1,2) by (rule on_receive_routing_event)
  have g: "on_packet_received ?g p
             = Inr (?g\<lparr>ack_response_status := r, ack_received_event := True\<rparr>, AckConsumed)"
    using wg assms(1,2) by (rule on_packet_received_routing_event)
  have nc: "waiting_for_ack_from ?cd = None"
    using cli_uniform idle_cli assms(4) by (rule awaited_after_disarm)
  have ng: "waiting_for_ack_from ?gd = None"
    using gui_uniform idle_gui assms(4) by (rule awaited_after_disarm)
  from nc have dc: "fst (on_receive ?cd q) = ?cd"
    and dn: "snd (on_receive ?cd q) \<noteq> AckConsumed"
    by (simp_all add: on_receive_def on_receive_try_unarmed)
  from ng have dg: "on_packet_received ?gd q = Inr (?gd, Queued)"
    by (simp add: on_packet_received_def)
  from wc c wc' wg g wg' dc dn dg show ?thesis
    by simp
qed

lemma example_traces:
  "run_ops cli_observe [Arm ''!aaaaaaaa'', Observe (text_packet ''!aaaaaaaa'' ''hi'')]
     = \<lparr>ack_received_event = False, ack_response_status = PyStr ''UNKNOWN'',
        waiting_for_ack_from = Some ''!aaaaaaaa''\<rparr>"
  "run_ops gui_observe
     [Arm ''!aaaaaaaa'', Observe (routing_packet ''!aaaaaaaa'' ''NONE''), Disarm]
     = \<lparr>ack_received_event = True, ack_response_status = PyStr ''NONE'',
        waiting_for_ack_from = None\<rparr>"
  by (simp_all add: run_ops_def arm_def disarm_def init_state_def cli_observe_def
      gui_observe_def on_receive_def on_receive_try_def on_packet_received_def ack_match_def
      dict_get_def Let_def text_packet_def routing_packet_def)

theorem armed_consumes_until_disarm_witness:
  "on_receive
     \<lparr>ack_received_event = False, ack_response_status = PyStr ''UNKNOWN'',
      waiting_for_ack_from = Some ''!aaaaaaaa''\<rparr>
     (routing_packet ''!aaaaaaaa'' ''NONE'')
     = (\<lparr>ack_received_event = True, ack_response_status = PyStr ''NONE'',
         waiting_for_ack_from = Some ''!aaaaaaaa''\<rparr>, AckConsumed)
   \<and> on_packet_received
       \<lparr>ack_received_event = True, ack_response_status = PyStr ''NONE'',
        waiting_for_ack_from = None\<rparr>
       (routing_packet ''!aaaaaaaa'' ''NO_RESPONSE'')
     = Inr (\<lparr>ack_received_event = True, ack_response_status = PyStr ''NONE'',
             waiting_for_ack_from = None\<rparr>, Queued)"
proof -
  have x: "''!aaaaaaaa'' \<noteq> []" by simp
  have e: "routing_event ''!aaaaaaaa'' (PyStr ''NONE'') (routing_packet ''!aaaaaaaa'' ''NONE'')"
    by (simp add: routing_event_def routing_packet_def)
  have ys: "list_all is_observe [Observe (text_packet ''!aaaaaaaa'' ''hi'')]"
    and ws: "list_all is_observe []"
    by simp_all
  from armed_consumes_until_disarm [OF x e ys ws, of "[]"
      "[Arm ''!aaaaaaaa'', Observe (routing_packet ''!aaaaaaaa'' ''NONE'')]"
      "routing_packet ''!aaaaaaaa'' ''NO_RESPONSE''"]
  show ?thesis
    by (simp add: example_traces)
qed

text \<open>
  Against C1 as stated ("consumed exactly once"): a second ROUTING event from the awaited
  node, handled before the sender has read the status, is consumed too and replaces the
  recorded reason.
\<close>

theorem second_ack_also_consumed:
  "on_receive (fst (on_receive (arm ''!aaaaaaaa'' init_state)
                      (routing_packet ''!aaaaaaaa'' ''NONE'')))
              (routing_packet ''!aaaaaaaa'' ''NO_RESPONSE'')
     = (\<lparr>ack_received_event = True, ack_response_status = PyStr ''NO_RESPONSE'',
         waiting_for_ack_from = Some ''!aaaaaaaa''\<rparr>, AckConsumed)"
proof -
  have x: "''!aaaaaaaa'' \<noteq> []" by simp
  have w: "waiting_for_ack_from (arm ''!aaaaaaaa'' init_state) = Some ''!aaaaaaaa''"
    by (simp add: arm_def)
  have e1: "routing_event ''!aaaaaaaa'' (PyStr ''NONE'') (routing_packet ''!aaaaaaaa'' ''NONE'')"
    by (simp add: routing_event_def routing_packet_def)
  have e2: "routing_event ''!aaaaaaaa'' (PyStr ''NO_RESPONSE'')
              (routing_packet ''!aaaaaaaa'' ''NO_RESPONSE'')"
    by (simp add: routing_event_def routing_packet_def)
  have s1: "on_receive (arm ''!aaaaaaaa'' init_state) (routing_packet ''!aaaaaaaa'' ''NONE'')
              = ((arm ''!aaaaaaaa'' init_state)
                   \<lparr>ack_response_status := PyStr ''NONE'', ack_received_event := True\<rparr>,
                 AckConsumed)"
    using w x e1 by (rule on_receive_routing_event)
  have w1: "waiting_for_ack_from
              ((arm ''!aaaaaaaa'' init_state)
                 \<lparr>ack_response_status := PyStr ''NONE'', ack_received_event := True\<rparr>)
              = Some ''!aaaaaaaa''"
    by (simp add: arm_def)
  from on_receive_routing_event [OF w1 x e2] s1 show ?thesis
    by (simp add: arm_def init_state_def)
qed

section \<open>What the sender reads and reports\<close>

text \<open>
  C4 (the code at the failing input). A send to \<open>!cccccccc\<close> from the initial state;
  one second into the wait the ROUTING event from \<open>!cccccccc\<close> arrives with the reason
  \<open>UNKNOWN\<close>. It is consumed: the flag is set and the wait ends after that second. The
  status read is the carried \<open>UNKNOWN\<close>, and the report is the one for a timeout, not
  the failure that shows the reason.
\<close>

theorem carried_unknown_reported_as_timeout:
  "status_read (send_direct_message_and_wait init_state ''!cccccccc'' None
      [(1, Observe (routing_packet ''!cccccccc'' ''UNKNOWN''))]) = Some (PyStr ''UNKNOWN'')
   \<and> ack_received_event (final (send_direct_message_and_wait init_state ''!cccccccc'' None
      [(1, Observe (routing_packet ''!cccccccc'' ''UNKNOWN''))]))
   \<and> waited (send_direct_message_and_wait init_state ''!cccccccc'' None
      [(1, Observe (routing_packet ''!cccccccc'' ''UNKNOWN''))]) = 1
   \<and> report (send_direct_message_and_wait init_state ''!cccccccc'' None
      [(1, Observe (routing_packet ''!cccccccc'' ''UNKNOWN''))]) = TimedOut
   \<and> report (send_direct_message_and_wait init_state ''!cccccccc'' None
      [(1, Observe (routing_packet ''!cccccccc'' ''UNKNOWN''))])
       \<noteq> DeliveryFailed (PyStr ''UNKNOWN'')
   \<and> status_read (send_direct_message_thread init_state ''!cccccccc'' None
      [(1, Observe (routing_packet ''!cccccccc'' ''UNKNOWN''))]) = Some (PyStr ''UNKNOWN'')
   \<and> waited (send_direct_message_thread init_state ''!cccccccc'' None
      [(1, Observe (routing_packet ''!cccccccc'' ''UNKNOWN''))]) = 1
   \<and> report (send_direct_message_thread init_state ''!cccccccc'' None
      [(1, Observe (routing_packet ''!cccccccc'' ''UNKNOWN''))]) = TimedOut"
proof -
  let ?a = "arm ''!cccccccc'' init_state"
  let ?p = "routing_packet ''!cccccccc'' ''UNKNOWN''"
  have w: "waiting_for_ack_from ?a = Some ''!cccccccc''" and x: "''!cccccccc'' \<noteq> []"
    by (simp_all add: arm_def)
  have e: "routing_event ''!cccccccc'' (PyStr ''UNKNOWN'') ?p"
    by (simp add: routing_event_def routing_packet_def)
  have c: "cli_observe ?a ?p
             = ?a\<lparr>ack_response_status := PyStr ''UNKNOWN'', ack_received_event := True\<rparr>"
    using on_receive_routing_event [OF w x e] by (simp add: cli_observe_def)
  have g: "gui_observe ?a ?p
             = ?a\<lparr>ack_response_status := PyStr ''UNKNOWN'', ack_received_event := True\<rparr>"
    using on_packet_received_routing_event [OF w x e] by (simp add: gui_observe_def)
  have f: "\<not> ack_received_event ?a"
    by (simp add: arm_def)
  from c f have 1: "send_direct_message_and_wait init_state ''!cccccccc'' None [(1, Observe ?p)]
      = \<lparr>final = ?a\<lparr>ack_response_status := PyStr ''UNKNOWN'', ack_received_event := True,
                       waiting_for_ack_from := None\<rparr>,
         report = TimedOut, status_read = Some (PyStr ''UNKNOWN''), waited = 1\<rparr>"
    by (simp add: send_direct_message_and_wait_def send_and_wait_def disarm_def Let_def
        event_wait_def classify_def)
  from g f have 2: "send_direct_message_thread init_state ''!cccccccc'' None [(1, Observe ?p)]
      = \<lparr>final = ?a\<lparr>ack_response_status := PyStr ''UNKNOWN'', ack_received_event := True,
                       waiting_for_ack_from := None\<rparr>,
         report = TimedOut, status_read = Some (PyStr ''UNKNOWN''), waited = 1\<rparr>"
    by (simp add: send_direct_message_thread_def send_and_wait_def disarm_def Let_def
        event_wait_def classify_def)
  show ?thesis
    unfolding 1 2 by simp
qed

text \<open>
  C7. When \<open>sendText\<close> returns and no packet handled between the sender's two critical
  sections is taken as an acknowledgment, whatever other senders arm or disarm
  meanwhile, the wait lasts its full 15 seconds and no longer, the status read is
  \<open>UNKNOWN\<close>, and the report is "timed out": neither a failure nor the exception
  handler's message. Whatever happens meanwhile, the wait is never longer than 15
  seconds.
\<close>

theorem no_ack_times_out:
  assumes "none_taken cli_observe (Some X) events"
    and "none_taken gui_observe (Some X) events"
  shows "waited (send_direct_message_and_wait st X None events) = 15
       \<and> status_read (send_direct_message_and_wait st X None events) = Some (PyStr ''UNKNOWN'')
       \<and> report (send_direct_message_and_wait st X None events) = TimedOut
       \<and> waited (send_direct_message_thread st X None events) = 15
       \<and> status_read (send_direct_message_thread st X None events) = Some (PyStr ''UNKNOWN'')
       \<and> report (send_direct_message_thread st X None events) = TimedOut
       \<and> waited (send_direct_message_and_wait st X None others) \<le> 15
       \<and> waited (send_direct_message_thread st X None others) \<le> 15"
  using send_and_wait_quiet [OF cli_uniform idle_cli assms(1), of st]
    send_and_wait_quiet [OF gui_uniform idle_gui assms(2), of st]
    send_and_wait_bounded [of cli_observe st X None others]
    send_and_wait_bounded [of gui_observe st X None others]
  by (simp add: send_direct_message_and_wait_def send_direct_message_thread_def)

theorem no_ack_times_out_witness:
  "waited (send_direct_message_and_wait init_state ''!bbbbbbbb'' None
      [(3, Observe (text_packet ''!bbbbbbbb'' ''hi'')), (5, Arm ''!cccccccc''),
       (7, Observe (routing_packet ''!aaaaaaaa'' ''NONE'')), (9, Disarm),
       (11, Observe (routing_packet ''!bbbbbbbb'' ''NONE''))]) = 15
   \<and> report (send_direct_message_and_wait init_state ''!bbbbbbbb'' None
      [(3, Observe (text_packet ''!bbbbbbbb'' ''hi'')), (5, Arm ''!cccccccc''),
       (7, Observe (routing_packet ''!aaaaaaaa'' ''NONE'')), (9, Disarm),
       (11, Observe (routing_packet ''!bbbbbbbb'' ''NONE''))]) = TimedOut
   \<and> report (send_direct_message_thread init_state ''!bbbbbbbb'' None
      [(3, Observe (text_packet ''!bbbbbbbb'' ''hi'')), (5, Arm ''!cccccccc''),
       (7, Observe (routing_packet ''!aaaaaaaa'' ''NONE'')), (9, Disarm),
       (11, Observe (routing_packet ''!bbbbbbbb'' ''NONE''))]) = TimedOut"
proof -
  have q1: "none_taken cli_observe (Some ''!bbbbbbbb'')
      [(3, Observe (text_packet ''!bbbbbbbb'' ''hi'')), (5, Arm ''!cccccccc''),
       (7, Observe (routing_packet ''!aaaaaaaa'' ''NONE'')), (9, Disarm),
       (11, Observe (routing_packet ''!bbbbbbbb'' ''NONE''))]"
    and q2: "none_taken gui_observe (Some ''!bbbbbbbb'')
      [(3, Observe (text_packet ''!bbbbbbbb'' ''hi'')), (5, Arm ''!cccccccc''),
       (7, Observe (routing_packet ''!aaaaaaaa'' ''NONE'')), (9, Disarm),
       (11, Observe (routing_packet ''!bbbbbbbb'' ''NONE''))]"
    by (simp_all add: example_traffic_not_consumed)
  from no_ack_times_out [OF q1 q2, of init_state "[]"]
  show ?thesis by simp
qed

text \<open>
  The packet need not come from the sender's own destination to count: two \<open>dm\<close>
  commands in a row, then one acknowledgment from the second destination. It is taken
  for the second sender's expectation and sets the one flag, the first sender wakes as
  well, reads \<open>NONE\<close> and reports its own message delivered.
\<close>

lemma acknowledgment_for_another_sender:
  "report (send_direct_message_and_wait init_state ''!aaaaaaaa'' None
      [(1, Arm ''!bbbbbbbb''), (2, Observe (routing_packet ''!bbbbbbbb'' ''NONE''))]) = Delivered"
  "waited (send_direct_message_and_wait init_state ''!aaaaaaaa'' None
      [(1, Arm ''!bbbbbbbb''), (2, Observe (routing_packet ''!bbbbbbbb'' ''NONE''))]) = 2"
  "\<not> none_taken cli_observe (Some ''!aaaaaaaa'')
      [(1, Arm ''!bbbbbbbb''), (2, Observe (routing_packet ''!bbbbbbbb'' ''NONE''))]"
proof -
  let ?b = "arm ''!bbbbbbbb'' (arm ''!aaaaaaaa'' init_state)"
  let ?p = "routing_packet ''!bbbbbbbb'' ''NONE''"
  have w: "waiting_for_ack_from ?b = Some ''!bbbbbbbb''" and x: "''!bbbbbbbb'' \<noteq> []"
    by (simp_all add: arm_def)
  have e: "routing_event ''!bbbbbbbb'' (PyStr ''NONE'') ?p"
    by (simp add: routing_event_def routing_packet_def)
  have c: "cli_observe ?b ?p
             = ?b\<lparr>ack_response_status := PyStr ''NONE'', ack_received_event := True\<rparr>"
    using on_receive_routing_event [OF w x e] by (simp add: cli_observe_def)
  have f: "\<not> ack_received_event ?b" "\<not> ack_received_event (arm ''!aaaaaaaa'' init_state)"
    by (simp_all add: arm_def)
  from c f show "report (send_direct_message_and_wait init_state ''!aaaaaaaa'' None
      [(1, Arm ''!bbbbbbbb''), (2, Observe ?p)]) = Delivered"
    and "waited (send_direct_message_and_wait init_state ''!aaaaaaaa'' None
      [(1, Arm ''!bbbbbbbb''), (2, Observe ?p)]) = 2"
    by (simp_all add: send_direct_message_and_wait_def send_and_wait_def disarm_def Let_def
        event_wait_def classify_def)
  from routing_event_consumed(1) [OF x e]
  show "\<not> none_taken cli_observe (Some ''!aaaaaaaa'') [(1, Arm ''!bbbbbbbb''), (2, Observe ?p)]"
    by simp
qed

text \<open>
  C9. A consumed acknowledgment whose reason is the string \<open>UNKNOWN\<close> gives the status
  and the report of a wait in which nothing happened: "timed out", not a failure with
  that reason. Status and report do not tell the two apart. This holds when only packets
  arrive before the acknowledgment, and whatever other senders arm or disarm after it,
  as long as no later packet is taken.
\<close>

theorem unknown_reason_is_in_band:
  assumes "X \<noteq> []" and "routing_event X (PyStr ''UNKNOWN'') p"
    and "none_taken cli_observe (Some X) post"
    and "none_taken gui_observe (Some X) post"
  shows "consumes cli_observe X p \<and> consumes gui_observe X p
       \<and> report (send_direct_message_and_wait st X None
                   (packets_only pre @ (t, Observe p) # post)) = TimedOut
       \<and> report (send_direct_message_and_wait st X None
                   (packets_only pre @ (t, Observe p) # post))
           = report (send_direct_message_and_wait st X None [])
       \<and> status_read (send_direct_message_and_wait st X None
                        (packets_only pre @ (t, Observe p) # post))
           = status_read (send_direct_message_and_wait st X None [])
       \<and> report (send_direct_message_thread st X None
                   (packets_only pre @ (t, Observe p) # post)) = TimedOut
       \<and> report (send_direct_message_thread st X None
                   (packets_only pre @ (t, Observe p) # post))
           = report (send_direct_message_thread st X None [])
       \<and> status_read (send_direct_message_thread st X None
                        (packets_only pre @ (t, Observe p) # post))
           = status_read (send_direct_message_thread st X None [])"
proof -
  from assms(1,2) have c: "consumes cli_observe X p" "recorded cli_observe X p = PyStr ''UNKNOWN''"
    and g: "consumes gui_observe X p" "recorded gui_observe X p = PyStr ''UNKNOWN''"
    by (rule routing_event_consumed)+
  have e: "none_taken obs (Some X) []" for obs
    by simp
  from send_and_wait_unknown_ack [OF cli_uniform idle_cli c assms(3), of st pre t]
    send_and_wait_quiet(1,2) [OF cli_uniform idle_cli e, of st]
  have 1: "report (send_direct_message_and_wait st X None
                     (packets_only pre @ (t, Observe p) # post)) = TimedOut"
    and 2: "report (send_direct_message_and_wait st X None
                     (packets_only pre @ (t, Observe p) # post))
           = report (send_direct_message_and_wait st X None [])"
    and 3: "status_read (send_direct_message_and_wait st X None
                          (packets_only pre @ (t, Observe p) # post))
           = status_read (send_direct_message_and_wait st X None [])"
    by (simp_all add: send_direct_message_and_wait_def)
  from send_and_wait_unknown_ack [OF gui_uniform idle_gui g assms(4), of st pre t]
    send_and_wait_quiet(1,2) [OF gui_uniform idle_gui e, of st]
  have 4: "report (send_direct_message_thread st X None
                     (packets_only pre @ (t, Observe p) # post)) = TimedOut"
    and 5: "report (send_direct_message_thread st X None
                     (packets_only pre @ (t, Observe p) # post))
           = report (send_direct_message_thread st X None [])"
    and 6: "status_read (send_direct_message_thread st X None
                          (packets_only pre @ (t, Observe p) # post))
           = status_read (send_direct_message_thread st X None [])"
    by (simp_all add: send_direct_message_thread_def)
  from c(1) g(1) 1 2 3 4 5 6 show ?thesis by simp
qed

theorem unknown_reason_is_in_band_witness:
  "consumes cli_observe ''!dddddddd'' (routing_packet ''!dddddddd'' ''UNKNOWN'')
   \<and> report (send_direct_message_and_wait init_state ''!dddddddd'' None
        [(1, Observe (text_packet ''!dddddddd'' ''hi'')),
         (2, Observe (routing_packet ''!dddddddd'' ''UNKNOWN'')),
         (3, Arm ''!eeeeeeee'')]) = TimedOut
   \<and> report (send_direct_message_and_wait init_state ''!dddddddd'' None []) = TimedOut
   \<and> report (send_direct_message_thread init_state ''!dddddddd'' None
        [(1, Observe (text_packet ''!dddddddd'' ''hi'')),
         (2, Observe (routing_packet ''!dddddddd'' ''UNKNOWN'')),
         (3, Arm ''!eeeeeeee'')]) = TimedOut"
proof -
  have x: "''!dddddddd'' \<noteq> []" by simp
  have e: "routing_event ''!dddddddd'' (PyStr ''UNKNOWN'') (routing_packet ''!dddddddd'' ''UNKNOWN'')"
    by (simp add: routing_event_def routing_packet_def)
  have q1: "none_taken cli_observe (Some ''!dddddddd'') [(3, Arm ''!eeeeeeee'')]"
    and q2: "none_taken gui_observe (Some ''!dddddddd'') [(3, Arm ''!eeeeeeee'')]"
    by simp_all
  from unknown_reason_is_in_band [OF x e q1 q2, of init_state
      "[(1, text_packet ''!dddddddd'' ''hi'')]" 2]
  show ?thesis by (auto simp: packets_only_def)
qed

section \<open>When \<open>sendText\<close> raises\<close>

text \<open>
  C2 (the code at the failing input). \<open>sendText\<close> raises in a send to \<open>!aaaaaaaa\<close>
  from the initial state: the handler reports the failure and the node stays awaited, so
  a ROUTING event that \<open>!aaaaaaaa\<close> sends later is consumed instead of shown. The next
  send arms afresh: its result does not depend on the state it starts from.
\<close>

theorem send_failure_leaves_expectation_armed:
  "final (send_direct_message_and_wait init_state ''!aaaaaaaa''
            (Some (SendError ''not connected'')) [])
     = \<lparr>ack_received_event = False, ack_response_status = PyStr ''UNKNOWN'',
        waiting_for_ack_from = Some ''!aaaaaaaa''\<rparr>
   \<and> report (send_direct_message_and_wait init_state ''!aaaaaaaa''
            (Some (SendError ''not connected'')) [])
     = SendFailed (SendError ''not connected'')
   \<and> on_receive
        (final (send_direct_message_and_wait init_state ''!aaaaaaaa''
                  (Some (SendError ''not connected'')) []))
        (routing_packet ''!aaaaaaaa'' ''NONE'')
     = (\<lparr>ack_received_event = True, ack_response_status = PyStr ''NONE'',
         waiting_for_ack_from = Some ''!aaaaaaaa''\<rparr>, AckConsumed)
   \<and> final (send_direct_message_thread init_state ''!aaaaaaaa''
            (Some (SendError ''not connected'')) [])
     = \<lparr>ack_received_event = False, ack_response_status = PyStr ''UNKNOWN'',
        waiting_for_ack_from = Some ''!aaaaaaaa''\<rparr>
   \<and> on_packet_received
        (final (send_direct_message_thread init_state ''!aaaaaaaa''
                  (Some (SendError ''not connected'')) []))
        (routing_packet ''!aaaaaaaa'' ''NONE'')
     = Inr (\<lparr>ack_received_event = True, ack_response_status = PyStr ''NONE'',
             waiting_for_ack_from = Some ''!aaaaaaaa''\<rparr>, AckConsumed)
   \<and> send_direct_message_and_wait st X' send_raises packets
     = send_direct_message_and_wait init_state X' send_raises packets
   \<and> send_direct_message_thread st X' send_raises packets
     = send_direct_message_thread init_state X' send_raises packets"
proof -
  let ?a = "\<lparr>ack_received_event = False, ack_response_status = PyStr ''UNKNOWN'',
             waiting_for_ack_from = Some ''!aaaaaaaa''\<rparr>"
  have f: "final (send_and_wait obs init_state ''!aaaaaaaa''
                    (Some (SendError ''not connected'')) []) = ?a" for obs
    by (simp add: send_and_wait_def arm_def init_state_def)
  have r: "report (send_and_wait obs init_state ''!aaaaaaaa''
                    (Some (SendError ''not connected'')) [])
             = SendFailed (SendError ''not connected'')" for obs
    by (simp add: send_and_wait_def)
  have w: "waiting_for_ack_from ?a = Some ''!aaaaaaaa''" and x: "''!aaaaaaaa'' \<noteq> []"
    by simp_all
  have e: "routing_event ''!aaaaaaaa'' (PyStr ''NONE'') (routing_packet ''!aaaaaaaa'' ''NONE'')"
    by (simp add: routing_event_def routing_packet_def)
  have c: "on_receive ?a (routing_packet ''!aaaaaaaa'' ''NONE'')
             = (\<lparr>ack_received_event = True, ack_response_status = PyStr ''NONE'',
                 waiting_for_ack_from = Some ''!aaaaaaaa''\<rparr>, AckConsumed)"
    using on_receive_routing_event [OF w x e] by simp
  have g: "on_packet_received ?a (routing_packet ''!aaaaaaaa'' ''NONE'')
             = Inr (\<lparr>ack_received_event = True, ack_response_status = PyStr ''NONE'',
                     waiting_for_ack_from = Some ''!aaaaaaaa''\<rparr>, AckConsumed)"
    using on_packet_received_routing_event [OF w x e] by simp
  have i: "arm X' st = arm X' init_state"
    by (simp add: arm_def init_state_def)
  then have s: "send_and_wait obs st X' send_raises packets
                  = send_and_wait obs init_state X' send_raises packets" for obs
    by (simp add: send_and_wait_def)
  from f r c g s show ?thesis
    by (simp add: send_direct_message_and_wait_def send_direct_message_thread_def)
qed

section \<open>Packets with missing fields\<close>

text \<open>
  C8 (as the code has it). A packet with no decoded payload never changes the state and
  is never consumed: the command-line callback returns without printing it, the
  graphical callback queues it. A ROUTING event from the awaited node whose routing
  payload is absent or has no error reason is not skipped: it is consumed and the reason
  recorded is \<open>UNKNOWN_RESPONSE\<close>. An exception inside the command-line callback is
  caught there: the callback returns with the state unchanged.
\<close>

theorem missing_fields_handling:
  assumes "map_of p0 ''decoded'' = None"
    and "waiting_for_ack_from st = Some X" and "X \<noteq> []"
    and "map_of p ''fromId'' = Some (PyStr X)"
    and "map_of p ''decoded'' = Some (PyDict d)"
    and "map_of d ''portnum'' = Some (PyStr ''ROUTING_APP'')"
    and "map_of d ''routing'' = None
         \<or> (\<exists>rt. map_of d ''routing'' = Some (PyDict rt) \<and> map_of rt ''errorReason'' = None)"
  shows "on_receive st0 p0 = (st0, NotDecoded)
       \<and> on_packet_received st0 p0 = Inr (st0, Queued)
       \<and> on_receive st p
           = (st\<lparr>ack_response_status := PyStr ''UNKNOWN_RESPONSE'', ack_received_event := True\<rparr>,
              AckConsumed)
       \<and> on_packet_received st p
           = Inr (st\<lparr>ack_response_status := PyStr ''UNKNOWN_RESPONSE'',
                     ack_received_event := True\<rparr>, AckConsumed)
       \<and> (on_receive_try st1 p1 = Inl e \<longrightarrow> on_receive st1 p1 = (st1, ErrorPrinted e))"
proof -
  from assms(1) have a: "on_receive st0 p0 = (st0, NotDecoded)"
    by (simp add: on_receive_def on_receive_try_def dict_get_def)
  from assms(1) have b: "on_packet_received st0 p0 = Inr (st0, Queued)"
    by (simp add: on_packet_received_def dict_get_def split: option.splits)
  from assms(6) have ne: "d \<noteq> []" by auto
  from assms(7) have rr: "py_get (dict_get d ''routing'' (PyDict [])) ''errorReason''
                            (PyStr ''UNKNOWN_RESPONSE'') = Inr (PyStr ''UNKNOWN_RESPONSE'')"
    by (auto simp: dict_get_def)
  from assms(4-6) have fields: "dict_get p ''decoded'' dflt = PyDict d"
    "dict_get p ''fromId'' dflt = PyStr X"
    "dict_get d ''portnum'' dflt = PyStr ''ROUTING_APP''" for dflt
    by (simp_all add: dict_get_def)
  from assms(2,3) ne rr have c: "on_receive st p
           = (st\<lparr>ack_response_status := PyStr ''UNKNOWN_RESPONSE'', ack_received_event := True\<rparr>,
              AckConsumed)"
    by (simp add: on_receive_def on_receive_try_def ack_match_def Let_def fields)
  from assms(2,3) rr have g: "on_packet_received st p
           = Inr (st\<lparr>ack_response_status := PyStr ''UNKNOWN_RESPONSE'',
                     ack_received_event := True\<rparr>, AckConsumed)"
    by (simp add: on_packet_received_def fields)
  have h: "on_receive_try st1 p1 = Inl e \<longrightarrow> on_receive st1 p1 = (st1, ErrorPrinted e)"
    by (simp add: on_receive_def)
  from a b c g h show ?thesis by simp
qed

theorem missing_fields_handling_witness:
  "on_receive init_state [(''fromId'', PyStr ''!aaaaaaaa'')] = (init_state, NotDecoded)
   \<and> on_packet_received init_state [(''fromId'', PyStr ''!aaaaaaaa'')] = Inr (init_state, Queued)
   \<and> on_packet_received (arm ''!aaaaaaaa'' init_state) (bare_routing_packet ''!aaaaaaaa'')
       = Inr (\<lparr>ack_received_event = True, ack_response_status = PyStr ''UNKNOWN_RESPONSE'',
               waiting_for_ack_from = Some ''!aaaaaaaa''\<rparr>, AckConsumed)"
proof -
  have 1: "map_of [(''fromId'', PyStr ''!aaaaaaaa'')] ''decoded'' = None"
    by simp
  have 2: "waiting_for_ack_from (arm ''!aaaaaaaa'' init_state) = Some ''!aaaaaaaa''"
    by (simp add: arm_def)
  have 3: "''!aaaaaaaa'' \<noteq> []" by simp
  have 4: "map_of (bare_routing_packet ''!aaaaaaaa'') ''fromId'' = Some (PyStr ''!aaaaaaaa'')"
    and 5: "map_of (bare_routing_packet ''!aaaaaaaa'') ''decoded''
              = Some (PyDict [(''portnum'', PyStr ''ROUTING_APP''), (''routing'', PyDict [])])"
    by (simp_all add: bare_routing_packet_def)
  have 6: "map_of [(''portnum'', PyStr ''ROUTING_APP''), (''routing'', PyDict [])] ''portnum''
             = Some (PyStr ''ROUTING_APP'')"
    by simp
  have 7: "map_of [(''portnum'', PyStr ''ROUTING_APP''), (''routing'', PyDict [])] ''routing'' = None
         \<or> (\<exists>rt. map_of [(''portnum'', PyStr ''ROUTING_APP''), (''routing'', PyDict [])] ''routing''
                    = Some (PyDict rt) \<and> map_of rt ''errorReason'' = None)"
    by simp
  from missing_fields_handling [OF 1 2 3 4 5 6 7, of init_state]
  show ?thesis
    by (auto simp: arm_def init_state_def)
qed

text \<open>
  Against C8 as stated ("skipped as ordinary traffic"): a ROUTING event from the awaited
  node with an empty routing payload is consumed, not printed.
\<close>

theorem bare_routing_event_is_consumed:
  "on_receive (arm ''!aaaaaaaa'' init_state) (bare_routing_packet ''!aaaaaaaa'')
     = (\<lparr>ack_received_event = True, ack_response_status = PyStr ''UNKNOWN_RESPONSE'',
         waiting_for_ack_from = Some ''!aaaaaaaa''\<rparr>, AckConsumed)"
  by (simp add: on_receive_def on_receive_try_def ack_match_def dict_get_def Let_def
      arm_def init_state_def bare_routing_packet_def)

section \<open>No status survives an arm\<close>

lemma since_last_arm_snoc_arm: "since_last_arm (xs @ [Arm d]) = Some (d, [])"
  by (induction xs) auto

lemma since_last_arm_snoc_other:
  "\<not> is_arm x \<Longrightarrow>
   since_last_arm (xs @ [x]) = map_option (\<lambda>(d, s). (d, s @ [x])) (since_last_arm xs)"
proof (induction xs)
  case Nil
  then show ?case by (cases x) auto
next
  case (Cons a xs)
  then show ?case
    by (cases "since_last_arm xs"; cases a) auto
qed

lemma run_ops_snoc: "run_ops obs (xs @ [x]) = exec_op obs (run_ops obs xs) x"
  by (simp add: run_ops_def)

lemma recorded_since_arm_snoc:
  "\<not> is_arm x \<Longrightarrow> recorded_since_arm obs xs v \<Longrightarrow> recorded_since_arm obs (xs @ [x]) v"
  by (cases "since_last_arm xs")
     (auto simp: recorded_since_arm_def since_last_arm_snoc_other)

lemma trace_inv_all:
  assumes u: "uniform obs" and i: "idle_when_unarmed obs"
  shows "trace_inv obs xs"
proof (induction xs rule: rev_induct)
  case Nil
  show ?case
    by (simp add: trace_inv_def run_ops_def init_state_def)
next
  case (snoc x xs)
  let ?s = "run_ops obs xs"
  show ?case
  proof (cases x)
    case (Arm d)
    then show ?thesis
      by (simp add: trace_inv_def run_ops_snoc arm_def since_last_arm_snoc_arm)
  next
    case Disarm
    with snoc show ?thesis
      by (auto simp: trace_inv_def run_ops_snoc disarm_def intro: recorded_since_arm_snoc)
  next
    case (Observe q)
    show ?thesis
    proof (cases "waiting_for_ack_from ?s")
      case None
      with i have "obs ?s q = ?s"
        by (simp add: idle_when_unarmed_def)
      with snoc Observe None show ?thesis
        by (auto simp: trace_inv_def run_ops_snoc intro: recorded_since_arm_snoc)
    next
      case (Some d)
      with snoc obtain s where s: "since_last_arm xs = Some (d, s)"
        by (auto simp: trace_inv_def split: option.splits)
      show ?thesis
      proof (cases "consumes obs d q")
        case True
        with u Some have "obs ?s q
            = ?s\<lparr>ack_response_status := recorded obs d q, ack_received_event := True\<rparr>"
          by (simp add: uniform_step)
        with Observe Some s True show ?thesis
          by (simp add: trace_inv_def run_ops_snoc recorded_since_arm_def
              since_last_arm_snoc_other)
      next
        case False
        with u Some have "obs ?s q = ?s"
          by (simp add: uniform_step)
        with snoc Observe Some s show ?thesis
          by (auto simp: trace_inv_def run_ops_snoc since_last_arm_snoc_other
              intro: recorded_since_arm_snoc)
      qed
    qed
  qed
qed

text \<open>
  C10. Arming resets the status to \<open>UNKNOWN\<close> and clears the event flag, and it is done
  before \<open>sendText\<close> is called (when \<open>sendText\<close> raises, the state is the armed one,
  changed only by what the other threads did to it since). A callback writes nothing
  while no node is awaited. Hence, after any sequence of critical
  sections of any number of threads, the status a disarm reads is \<open>UNKNOWN\<close> or was
  recorded by a callback invocation that came after the most recent arm.
\<close>

theorem no_stale_status:
  "ack_response_status (arm d st) = PyStr ''UNKNOWN''
   \<and> \<not> ack_received_event (arm d st)
   \<and> final (send_direct_message_and_wait st d (Some e) events)
       = run_feed cli_observe (arm d st) events
   \<and> final (send_direct_message_thread st d (Some e) events)
       = run_feed gui_observe (arm d st) events
   \<and> (waiting_for_ack_from st = None \<longrightarrow> cli_observe st p = st \<and> gui_observe st p = st)
   \<and> (fst (disarm (run_ops cli_observe xs)) = PyStr ''UNKNOWN''
        \<or> recorded_since_arm cli_observe xs (fst (disarm (run_ops cli_observe xs))))
   \<and> (fst (disarm (run_ops gui_observe xs)) = PyStr ''UNKNOWN''
        \<or> recorded_since_arm gui_observe xs (fst (disarm (run_ops gui_observe xs))))"
proof -
  have a: "ack_response_status (arm d st) = PyStr ''UNKNOWN''"
    and b: "\<not> ack_received_event (arm d st)"
    by (simp_all add: arm_def)
  have c: "final (send_and_wait obs st d (Some e) events) = run_feed obs (arm d st) events"
    for obs
    by (simp add: send_and_wait_def)
  have f: "waiting_for_ack_from st = None \<longrightarrow> cli_observe st p = st \<and> gui_observe st p = st"
    using idle_cli idle_gui by (simp add: idle_when_unarmed_def)
  have "trace_inv cli_observe xs"
    using cli_uniform idle_cli by (rule trace_inv_all)
  then have g: "fst (disarm (run_ops cli_observe xs)) = PyStr ''UNKNOWN''
        \<or> recorded_since_arm cli_observe xs (fst (disarm (run_ops cli_observe xs)))"
    by (simp add: trace_inv_def disarm_def)
  have "trace_inv gui_observe xs"
    using gui_uniform idle_gui by (rule trace_inv_all)
  then have h: "fst (disarm (run_ops gui_observe xs)) = PyStr ''UNKNOWN''
        \<or> recorded_since_arm gui_observe xs (fst (disarm (run_ops gui_observe xs)))"
    by (simp add: trace_inv_def disarm_def)
  from a b c f g h show ?thesis
    by (simp add: send_direct_message_and_wait_def send_direct_message_thread_def)
qed

lemma example_trace_status:
  "fst (disarm (run_ops cli_observe
      [Arm ''!bbbbbbbb'', Observe (routing_packet ''!bbbbbbbb'' ''MAX_RETRANSMIT''), Disarm,
       Arm ''!aaaaaaaa'', Observe (routing_packet ''!bbbbbbbb'' ''NO_RESPONSE''),
       Observe (routing_packet ''!aaaaaaaa'' ''NONE'')])) = PyStr ''NONE''"
  by (simp add: run_ops_def disarm_def arm_def init_state_def cli_observe_def on_receive_def
      on_receive_try_def ack_match_def dict_get_def Let_def routing_packet_def)

theorem no_stale_status_witness:
  "waiting_for_ack_from init_state = None
   \<and> cli_observe init_state (routing_packet ''!aaaaaaaa'' ''NONE'') = init_state
   \<and> recorded_since_arm cli_observe
      [Arm ''!bbbbbbbb'', Observe (routing_packet ''!bbbbbbbb'' ''MAX_RETRANSMIT''), Disarm,
       Arm ''!aaaaaaaa'', Observe (routing_packet ''!bbbbbbbb'' ''NO_RESPONSE''),
       Observe (routing_packet ''!aaaaaaaa'' ''NONE'')] (PyStr ''NONE'')"
proof -
  have n: "waiting_for_ack_from init_state = None"
    by (simp add: init_state_def)
  from no_stale_status [of _ init_state _ _ "routing_packet ''!aaaaaaaa'' ''NONE''"
      "[Arm ''!bbbbbbbb'', Observe (routing_packet ''!bbbbbbbb'' ''MAX_RETRANSMIT''), Disarm,
        Arm ''!aaaaaaaa'', Observe (routing_packet ''!bbbbbbbb'' ''NO_RESPONSE''),
        Observe (routing_packet ''!aaaaaaaa'' ''NONE'')]"] n example_trace_status
  show ?thesis by simp
qed

section \<open>Several senders at once\<close>

lemma on_receive_keeps_waiting:
  "waiting_for_ack_from (fst (on_receive st p)) = waiting_for_ack_from st"
proof (cases "waiting_for_ack_from st")
  case None
  with idle_cli have "cli_observe st p = st"
    by (simp add: idle_when_unarmed_def)
  then show ?thesis by (simp add: cli_observe_def)
next
  case (Some X)
  with cli_uniform have "cli_observe st p
      = (if consumes cli_observe X p
         then st\<lparr>ack_response_status := recorded cli_observe X p, ack_received_event := True\<rparr>
         else st)"
    by (rule uniform_step)
  then show ?thesis by (simp add: cli_observe_def split: if_splits)
qed

lemma senders_ok_step: "sys_step s t \<Longrightarrow> senders_ok s \<Longrightarrow> senders_ok t"
proof (induction rule: sys_step.induct)
  case (spawn destination_node_id s)
  then show ?case by (simp add: senders_ok_def)
next
  case (arms i s d)
  then have "d \<noteq> []"
    by (auto simp: senders_ok_def list_all_length)
  with arms show ?case
    by (auto simp: senders_ok_def list_all_length nth_list_update)
next
  case (send_returns i s d)
  then have "d \<noteq> []"
    by (auto simp: senders_ok_def list_all_length)
  with send_returns show ?case
    by (auto simp: senders_ok_def list_all_length nth_list_update)
next
  case (send_raises i s d e)
  then have "d \<noteq> []"
    by (auto simp: senders_ok_def list_all_length)
  with send_raises show ?case
    by (auto simp: senders_ok_def list_all_length nth_list_update)
next
  case (disarms i s d)
  then have "d \<noteq> []"
    by (auto simp: senders_ok_def list_all_length)
  with disarms show ?case
    by (auto simp: senders_ok_def list_all_length nth_list_update)
next
  case (receives s packet)
  then show ?case by (simp add: senders_ok_def)
qed

lemma slot_inv_index:
  "slot_inv s \<longleftrightarrow>
     (\<forall>d. waiting_for_ack_from (ack s) = Some d \<longrightarrow>
        d \<noteq> [] \<and> (\<exists>j < length (senders s). fst (senders s ! j) = d \<and> snd (senders s ! j) \<noteq> Started))"
  by (auto simp: slot_inv_def list_ex_length case_prod_beta split: option.splits)

lemma moved_sender_still_past_arm:
  assumes "\<exists>j < length xs. fst (xs ! j) = d0 \<and> snd (xs ! j) \<noteq> Started"
    and "i < length xs" and "fst (xs ! i) = d" and "pc \<noteq> Started"
  shows "\<exists>j < length (xs[i := (d, pc)]).
           fst (xs[i := (d, pc)] ! j) = d0 \<and> snd (xs[i := (d, pc)] ! j) \<noteq> Started"
proof -
  from assms(1) obtain j where j: "j < length xs" "fst (xs ! j) = d0" "snd (xs ! j) \<noteq> Started"
    by blast
  show ?thesis
  proof (cases "j = i")
    case True
    with j assms(2,3,4) have "i < length (xs[i := (d, pc)]) \<and> fst (xs[i := (d, pc)] ! i) = d0
        \<and> snd (xs[i := (d, pc)] ! i) \<noteq> Started"
      by simp
    then show ?thesis by blast
  next
    case False
    with j have "j < length (xs[i := (d, pc)]) \<and> fst (xs[i := (d, pc)] ! j) = d0
        \<and> snd (xs[i := (d, pc)] ! j) \<noteq> Started"
      by simp
    then show ?thesis by blast
  qed
qed

lemma slot_inv_step:
  assumes "sys_step s t" and "senders_ok s" and "slot_inv s"
  shows "slot_inv t"
  using assms
proof (induction rule: sys_step.induct)
  case (spawn destination_node_id s)
  then show ?case
    by (auto simp: slot_inv_def split: option.splits)
next
  case (arms i s d)
  then have "d \<noteq> []"
    by (auto simp: senders_ok_def list_all_length)
  moreover from arms have "i < length ((senders s)[i := (d, Armed)])
      \<and> fst ((senders s)[i := (d, Armed)] ! i) = d \<and> snd ((senders s)[i := (d, Armed)] ! i) \<noteq> Started"
    by simp
  ultimately show ?case
    unfolding slot_inv_index by (auto simp: arm_def)
next
  case (send_returns i s d)
  show ?case
    unfolding slot_inv_index
  proof (intro allI impI conjI)
    fix d0
    assume "waiting_for_ack_from (ack (s\<lparr>senders := (senders s)[i := (d, Sent)]\<rparr>)) = Some d0"
    then have w: "waiting_for_ack_from (ack s) = Some d0" by simp
    with send_returns.prems(2) show "d0 \<noteq> []"
      by (simp add: slot_inv_index)
    from w send_returns.prems(2)
    have "\<exists>j < length (senders s). fst (senders s ! j) = d0 \<and> snd (senders s ! j) \<noteq> Started"
      by (simp add: slot_inv_index)
    then have "\<exists>j < length ((senders s)[i := (d, Sent)]).
        fst ((senders s)[i := (d, Sent)] ! j) = d0 \<and> snd ((senders s)[i := (d, Sent)] ! j) \<noteq> Started"
      using send_returns.hyps by (intro moved_sender_still_past_arm) simp_all
    then show "\<exists>j < length (senders (s\<lparr>senders := (senders s)[i := (d, Sent)]\<rparr>)).
        fst (senders (s\<lparr>senders := (senders s)[i := (d, Sent)]\<rparr>) ! j) = d0
        \<and> snd (senders (s\<lparr>senders := (senders s)[i := (d, Sent)]\<rparr>) ! j) \<noteq> Started"
      by simp
  qed
next
  case (send_raises i s d e)
  let ?pc = "Finished (SendFailed e)"
  show ?case
    unfolding slot_inv_index
  proof (intro allI impI conjI)
    fix d0
    assume "waiting_for_ack_from (ack (s\<lparr>senders := (senders s)[i := (d, ?pc)]\<rparr>)) = Some d0"
    then have w: "waiting_for_ack_from (ack s) = Some d0" by simp
    with send_raises.prems(2) show "d0 \<noteq> []"
      by (simp add: slot_inv_index)
    from w send_raises.prems(2)
    have "\<exists>j < length (senders s). fst (senders s ! j) = d0 \<and> snd (senders s ! j) \<noteq> Started"
      by (simp add: slot_inv_index)
    then have "\<exists>j < length ((senders s)[i := (d, ?pc)]).
        fst ((senders s)[i := (d, ?pc)] ! j) = d0 \<and> snd ((senders s)[i := (d, ?pc)] ! j) \<noteq> Started"
      using send_raises.hyps by (intro moved_sender_still_past_arm) simp_all
    then show "\<exists>j < length (senders (s\<lparr>senders := (senders s)[i := (d, ?pc)]\<rparr>)).
        fst (senders (s\<lparr>senders := (senders s)[i := (d, ?pc)]\<rparr>) ! j) = d0
        \<and> snd (senders (s\<lparr>senders := (senders s)[i := (d, ?pc)]\<rparr>) ! j) \<noteq> Started"
      by simp
  qed
next
  case (disarms i s d)
  then show ?case
    by (simp add: slot_inv_def disarm_def)
next
  case (receives s packet)
  then show ?case
    by (auto simp: slot_inv_def on_receive_keeps_waiting split: option.splits)
qed

lemma reachable_invariants: "reachable s \<Longrightarrow> senders_ok s \<and> slot_inv s"
proof (induction rule: reachable.induct)
  case start
  show ?case
    by (simp add: senders_ok_def slot_inv_def init_sys_def init_state_def)
next
  case (step s t)
  then show ?case
    by (blast intro: senders_ok_step slot_inv_step)
qed

text \<open>
  C3 (as the code has it). There is one slot: in every reachable state the awaited node,
  if any, is the non-empty destination of a sender that is past its first critical
  section. Nothing rejects or delays a second sender: a started sender can always take
  its first critical section, whatever is awaited at that moment, and doing so
  overwrites the slot with its own destination and resets the status and the flag.
\<close>

theorem single_slot_overwritten_by_later_arm:
  assumes "reachable s"
  shows "slot_inv s
       \<and> (\<forall>i d. i < length (senders s) \<and> senders s ! i = (d, Started) \<longrightarrow>
             sys_step s (s\<lparr>ack := arm d (ack s), senders := (senders s)[i := (d, Armed)]\<rparr>)
             \<and> arm d (ack s)
                 = \<lparr>ack_received_event = False, ack_response_status = PyStr ''UNKNOWN'',
                    waiting_for_ack_from = Some d\<rparr>)"
proof -
  from assms have "slot_inv s"
    by (simp add: reachable_invariants)
  moreover have "sys_step s (s\<lparr>ack := arm d (ack s), senders := (senders s)[i := (d, Armed)]\<rparr>)"
    if "i < length (senders s)" and "senders s ! i = (d, Started)" for i d
    using that by (rule sys_step.arms)
  moreover have "arm d (ack s)
                 = \<lparr>ack_received_event = False, ack_response_status = PyStr ''UNKNOWN'',
                    waiting_for_ack_from = Some d\<rparr>" for d
    by (simp add: arm_def)
  ultimately show ?thesis by blast
qed

lemma reachable_one_waiting:
  "reachable \<lparr>ack = arm ''!aaaaaaaa'' init_state, senders = [(''!aaaaaaaa'', Sent)]\<rparr>"
proof -
  have 1: "reachable \<lparr>ack = init_state, senders = [(''!aaaaaaaa'', Started)]\<rparr>"
    using reachable.step [OF reachable.start sys_step.spawn [of "''!aaaaaaaa''" init_sys]]
    by (simp add: init_sys_def)
  have 2: "reachable \<lparr>ack = arm ''!aaaaaaaa'' init_state, senders = [(''!aaaaaaaa'', Armed)]\<rparr>"
    using reachable.step [OF 1 sys_step.arms [of 0 _ "''!aaaaaaaa''"]]
    by simp
  show ?thesis
    using reachable.step [OF 2 sys_step.send_returns [of 0 _ "''!aaaaaaaa''"]]
    by simp
qed

lemma reachable_second_started:
  "reachable \<lparr>ack = arm ''!aaaaaaaa'' init_state,
              senders = [(''!aaaaaaaa'', Sent), (''!bbbbbbbb'', Started)]\<rparr>"
  using reachable.step [OF reachable_one_waiting sys_step.spawn [of "''!bbbbbbbb''"]]
  by simp

theorem single_slot_overwritten_by_later_arm_witness:
  "reachable \<lparr>ack = arm ''!aaaaaaaa'' init_state,
              senders = [(''!aaaaaaaa'', Sent), (''!bbbbbbbb'', Started)]\<rparr>
   \<and> slot_inv \<lparr>ack = arm ''!aaaaaaaa'' init_state,
               senders = [(''!aaaaaaaa'', Sent), (''!bbbbbbbb'', Started)]\<rparr>
   \<and> sys_step \<lparr>ack = arm ''!aaaaaaaa'' init_state,
               senders = [(''!aaaaaaaa'', Sent), (''!bbbbbbbb'', Started)]\<rparr>
              \<lparr>ack = arm ''!bbbbbbbb'' (arm ''!aaaaaaaa'' init_state),
               senders = [(''!aaaaaaaa'', Sent), (''!bbbbbbbb'', Armed)]\<rparr>"
proof -
  let ?s = "\<lparr>ack = arm ''!aaaaaaaa'' init_state,
             senders = [(''!aaaaaaaa'', Sent), (''!bbbbbbbb'', Started)]\<rparr>"
  have i: "1 < length (senders ?s) \<and> senders ?s ! 1 = (''!bbbbbbbb'', Started)"
    by simp
  from single_slot_overwritten_by_later_arm [OF reachable_second_started]
  have "slot_inv ?s" and "\<forall>i d. i < length (senders ?s) \<and> senders ?s ! i = (d, Started) \<longrightarrow>
             sys_step ?s (?s\<lparr>ack := arm d (ack ?s), senders := (senders ?s)[i := (d, Armed)]\<rparr>)"
    by blast+
  with i have "slot_inv ?s"
    and "sys_step ?s (?s\<lparr>ack := arm ''!bbbbbbbb'' (ack ?s),
                          senders := (senders ?s)[1 := (''!bbbbbbbb'', Armed)]\<rparr>)"
    by blast+
  with reachable_second_started show ?thesis by simp
qed

text \<open>
  Against C3 as stated ("never interleaved"): two \<open>dm\<close> commands in a row. The second
  sender arms while the first is still waiting, so two senders are between their
  critical sections at once and the slot holds only the second destination.
\<close>

theorem two_senders_outstanding:
  "reachable \<lparr>ack = \<lparr>ack_received_event = False, ack_response_status = PyStr ''UNKNOWN'',
                     waiting_for_ack_from = Some ''!bbbbbbbb''\<rparr>,
              senders = [(''!aaaaaaaa'', Sent), (''!bbbbbbbb'', Armed)]\<rparr>
   \<and> outstanding \<lparr>ack = \<lparr>ack_received_event = False, ack_response_status = PyStr ''UNKNOWN'',
                         waiting_for_ack_from = Some ''!bbbbbbbb''\<rparr>,
                  senders = [(''!aaaaaaaa'', Sent), (''!bbbbbbbb'', Armed)]\<rparr> = 2"
proof -
  have "reachable \<lparr>ack = arm ''!bbbbbbbb'' (arm ''!aaaaaaaa'' init_state),
                   senders = [(''!aaaaaaaa'', Sent), (''!bbbbbbbb'', Armed)]\<rparr>"
    using reachable.step [OF reachable_second_started sys_step.arms [of 1 _ "''!bbbbbbbb''"]]
    by simp
  then show ?thesis
    by (simp add: arm_def init_state_def outstanding_def)
qed

end
